theory Spec2Isabelle
  imports Main "HOL-Library.Word"
begin

unbundle bit_operations_syntax

section \<open>Common data: bytes and JavaScript errors\<close>

text \<open>
  A \<open>Uint8Array\<close> is a list of bytes. Reading an index outside the array gives
  \<open>undefined\<close> in JavaScript; where the source passes such a read through a bitwise
  operator (\<open>&\<close>, \<open><<\<close>, \<open>|\<close>) the operand is converted to the 32-bit integer 0,
  which \<open>byte0\<close> writes out.
\<close>

type_synonym byte = "8 word"

datatype js_error = ReferenceError string | TypeError string | RangeError string

definition byte0 :: "byte list \<Rightarrow> nat \<Rightarrow> byte" where
  "byte0 a i = (if i < length a then a ! i else 0)"

text \<open>
  \<open>TypedArray.prototype.subarray(begin, end)\<close>: a negative index counts from the end,
  both indices are clamped to the array, and an empty range gives an empty array.
\<close>

definition subarray :: "byte list \<Rightarrow> int \<Rightarrow> int \<Rightarrow> byte list" where
  "subarray a b e =
     (let len = int (length a);
          b' = (if b < 0 then max (len + b) 0 else min b len);
          e' = (if e < 0 then max (len + e) 0 else min e len)
      in take (nat (e' - b')) (drop (nat b') a))"

section \<open>CEA-608 samples and \<open>_insertSampleInOrder\<close>\<close>

record cea_sample =
  c_type :: int
  c_pts :: int
  c_bytes :: "byte list"

text \<open>
  The \<open>for (pos = len - 1; pos >= 0; pos--)\<close> loop of \<open>_insertSampleInOrder\<close>; the
  counter is \<open>pos + 1\<close>, so that 0 stands for the loop's exit at \<open>pos = -1\<close>.
  \<open>arr.splice(pos, 0, data)\<close> puts \<open>data\<close> in front of \<open>arr[pos]\<close>.
\<close>

fun insert_scan :: "cea_sample list \<Rightarrow> cea_sample \<Rightarrow> nat \<Rightarrow> cea_sample list" where
  "insert_scan arr d 0 = arr"
| "insert_scan arr d (Suc pos) =
     (if c_pts d < c_pts (arr ! pos) then take pos arr @ d # drop pos arr
      else insert_scan arr d pos)"

definition insertSampleInOrder :: "cea_sample list \<Rightarrow> cea_sample \<Rightarrow> cea_sample list" where
  "insertSampleInOrder arr d =
     (let len = length arr in
      if len > 0 then
        (if c_pts d \<ge> c_pts (arr ! (len - 1)) then arr @ [d]
         else insert_scan arr d len)
      else arr @ [d])"

definition cea :: "int \<Rightarrow> cea_sample" where
  "cea p = \<lparr>c_type = 3, c_pts = p, c_bytes = []\<rparr>"

section \<open>Emulation-prevention bytes: \<open>discardEPB\<close>\<close>

text \<open>
  The first loop of \<open>discardEPB\<close> (\<open>while (i < length - 2)\<close>): it collects in
  \<open>EPBPositions\<close> the index of every 0x03 that follows two zero bytes, and after a
  match continues two bytes further on. \<open>i < length - 2\<close> is written \<open>i + 2 < length\<close>,
  which is the same comparison on JavaScript numbers and keeps the indices natural.
\<close>

function find_EPBPositions :: "byte list \<Rightarrow> nat \<Rightarrow> nat list \<Rightarrow> nat list" where
  "find_EPBPositions data i acc =
     (if i + 2 < length data then
        (if data ! i = 0 \<and> data ! (i + 1) = 0 \<and> data ! (i + 2) = 3
         then find_EPBPositions data (i + 2) (acc @ [i + 2])
         else find_EPBPositions data (i + 1) acc)
      else acc)"
  by pat_completeness auto

termination
  by (relation "measure (\<lambda>(data, i, acc). length data - i)") auto

declare find_EPBPositions.simps [simp del]

text \<open>
  The second loop (\<open>for (i = 0; i < newLength; sourceIndex++, i++)\<close>): it copies the
  source into \<open>newData\<close> and steps over \<open>sourceIndex\<close> when it is the first pending
  position (\<open>EPBPositions[0]\<close>, which is \<open>undefined\<close> once the list is empty). A read
  past the end of \<open>data\<close> would store \<open>undefined\<close>, that is 0, into the
  \<open>Uint8Array\<close>.
\<close>

function copy_skipping ::
  "byte list \<Rightarrow> nat \<Rightarrow> nat \<Rightarrow> nat \<Rightarrow> nat list \<Rightarrow> byte list \<Rightarrow> byte list" where
  "copy_skipping data newLength i sourceIndex ps newData =
     (if i < newLength then
        (if ps \<noteq> [] \<and> sourceIndex = hd ps
         then copy_skipping data newLength (i + 1) (sourceIndex + 2) (tl ps)
                (newData[i := byte0 data (sourceIndex + 1)])
         else copy_skipping data newLength (i + 1) (sourceIndex + 1) ps
                (newData[i := byte0 data sourceIndex]))
      else newData)"
  by pat_completeness auto

termination
  by (relation "measure (\<lambda>(data, newLength, i, sourceIndex, ps, newData). newLength - i)") auto

declare copy_skipping.simps [simp del]

text \<open>
  \<open>discardEPB(data)\<close>. The scan starts at \<open>i = 1\<close>: byte 0 of a NAL unit is its header.
\<close>

definition discardEPB :: "byte list \<Rightarrow> byte list" where
  "discardEPB data =
     (let EPBPositions = find_EPBPositions data 1 [] in
      if length EPBPositions = 0 then data
      else let newLength = length data - length EPBPositions in
        copy_skipping data newLength 0 0 EPBPositions (replicate newLength 0))"

text \<open>
  \<open>epb_at from data k\<close>: index \<open>k\<close> holds a 0x03 that follows two zero bytes, the
  first of them at index \<open>from\<close> or later. \<open>without P xs\<close> is \<open>xs\<close> with the indices
  satisfying \<open>P\<close> removed and every other element kept in order. The claim reads
  \<open>without (epb_at 0 data) data\<close>; the code computes \<open>without (epb_at 1 data) data\<close>.
\<close>

definition epb_at :: "nat \<Rightarrow> byte list \<Rightarrow> nat \<Rightarrow> bool" where
  "epb_at from data k =
     (from + 2 \<le> k \<and> k < length data \<and> data ! (k - 2) = 0 \<and> data ! (k - 1) = 0 \<and> data ! k = 3)"

definition without :: "(nat \<Rightarrow> bool) \<Rightarrow> 'a list \<Rightarrow> 'a list" where
  "without P xs = map (\<lambda>k. xs ! k) (filter (\<lambda>k. \<not> P k) [0..<length xs])"

section \<open>PES reassembly: \<open>_parsePES\<close>\<close>

text \<open>
  The accumulator \<open>{data: [], size: 0}\<close> that \<open>push\<close> fills per PID: the payload
  slices of the TS packets and the running sum \<open>size\<close>. The result of \<open>_parsePES\<close> is
  \<open>{data, pts, dts, len}\<close>; \<open>pts\<close> and \<open>dts\<close> stay \<open>undefined\<close> (\<open>None\<close>) when
  the header carries no timestamp flags.
\<close>

record pes_stream =
  s_data :: "byte list list"
  s_size :: int

record pes =
  pes_data :: "byte list"
  pes_pts :: "int option"
  pes_dts :: "int option"
  pes_len :: int

text \<open>
  \<open>while (data[0].length < 19 && data.length > 1)\<close>: the first slice absorbs its
  successors until it holds the 19 bytes the header may need.
\<close>

fun merge_head :: "byte list list \<Rightarrow> byte list list" where
  "merge_head (a # b # rest) =
     (if length a < 19 then merge_head ((a @ b) # rest) else a # b # rest)"
| "merge_head d = d"

text \<open>
  The loop that copies the payload into \<open>pesData\<close> (\<open>for (j = 0; j < dataLen; j++)\<close>):
  slices are skipped or trimmed until \<open>payloadStartOffset\<close> bytes are gone, the rest is
  written at offset \<open>i\<close>. \<open>pesData.set(frag, i)\<close> throws a RangeError when the slice
  does not fit.
\<close>

fun reassemble ::
  "byte list list \<Rightarrow> nat \<Rightarrow> nat \<Rightarrow> byte list \<Rightarrow> js_error + byte list" where
  "reassemble [] payloadStartOffset i pesData = Inr pesData"
| "reassemble (frag # rest) payloadStartOffset i pesData =
     (let len = length frag in
      if payloadStartOffset \<noteq> 0 \<and> payloadStartOffset > len
      then reassemble rest (payloadStartOffset - len) i pesData
      else
        (let frag' = drop payloadStartOffset frag;
             len' = len - payloadStartOffset in
         if i + len' > length pesData then Inl (RangeError ''offset is out of bounds'')
         else reassemble rest 0 (i + len')
                (take i pesData @ frag' @ drop (i + len') pesData)))"

text \<open>
  The 33-bit timestamp read of \<open>_parsePES\<close>, written twice in the source: at offset 9
  for the PTS and at offset 14 for the DTS, each followed by the same wrap
  (\<open>if (pesPts > 4294967295) pesPts -= 8589934592\<close>). Every byte goes through \<open>&\<close>, so
  a byte past the end of the slice counts as 0. The values stay below \<open>2^34\<close>, where
  JavaScript's number arithmetic is exact integer arithmetic.
\<close>

definition read_timestamp :: "byte list \<Rightarrow> nat \<Rightarrow> int" where
  "read_timestamp frag k =
     (let t = uint (byte0 frag k AND 0x0E) * 536870912 +
              uint (byte0 frag (k + 1) AND 0xFF) * 4194304 +
              uint (byte0 frag (k + 2) AND 0xFE) * 16384 +
              uint (byte0 frag (k + 3) AND 0xFF) * 128 +
              uint (byte0 frag (k + 4) AND 0xFE) div 2 in
      if t > 4294967295 then t - 8589934592 else t)"

text \<open>
  The block guarded by \<open>if (pesFlags & 0xC0)\<close>: PTS always, DTS when bit 0x40 is set
  (otherwise \<open>pesDts = pesPts\<close>), and the alignment
  \<open>if (pesPts - pesDts > 60*90000) pesPts = pesDts\<close>.
\<close>

definition pes_timestamps :: "byte list \<Rightarrow> int option \<times> int option" where
  "pes_timestamps frag =
     (let pesFlags = byte0 frag 7 in
      if pesFlags AND 0xC0 \<noteq> 0 then
        (let pesPts = read_timestamp frag 9 in
         if pesFlags AND 0x40 \<noteq> 0 then
           (let pesDts = read_timestamp frag 14 in
            if pesPts - pesDts > 60 * 90000 then (Some pesDts, Some pesDts)
            else (Some pesPts, Some pesDts))
         else (Some pesPts, Some pesPts))
      else (None, None))"

text \<open>
  \<open>_parsePES(stream)\<close>. \<open>Inr None\<close> is the \<open>null\<close> result. Where the source computes
  with \<open>undefined\<close>:
  \<^item> \<open>frag[2]\<close> missing makes \<open>pesPrefix\<close> NaN, which is not 1;
  \<^item> \<open>frag[5]\<close> missing makes \<open>pesLen\<close> NaN, which is falsy, so the truncation test
    is passed over;
  \<^item> \<open>frag[8]\<close> missing makes \<open>payloadStartOffset\<close> and \<open>stream.size\<close> NaN;
    \<open>new Uint8Array(NaN)\<close> has length 0 and the first \<open>pesData.set\<close> of the (at least
    three byte long) slice throws a RangeError.
  \<open>new Uint8Array(n)\<close> with \<open>n < 0\<close> throws a RangeError. An empty \<open>stream.data\<close>
  makes \<open>data[0].length\<close> a TypeError.
\<close>

definition parsePES :: "pes_stream \<Rightarrow> js_error + pes option" where
  "parsePES stream =
     (if s_size stream = 0 then Inr None
      else if s_data stream = [] then Inl (TypeError ''data[0] is undefined'')
      else
        (let data = merge_head (s_data stream);
             frag = hd data in
         if length frag < 3 then Inr None
         else if uint (byte0 frag 0) * 65536 + uint (byte0 frag 1) * 256 + uint (byte0 frag 2) = 1
         then
           (let pesLen = uint (byte0 frag 4) * 256 + uint (byte0 frag 5) in
            if 5 < length frag \<and> pesLen \<noteq> 0 \<and> pesLen > s_size stream - 6 then Inr None
            else
              (let (pesPts, pesDts) = pes_timestamps frag in
               if length frag \<le> 8 then Inl (RangeError ''offset is out of bounds'')
               else
                 (let pesHdrLen = uint (byte0 frag 8);
                      payloadStartOffset = pesHdrLen + 9;
                      size' = s_size stream - payloadStartOffset in
                  if size' < 0 then Inl (RangeError ''Invalid typed array length'')
                  else
                    (case reassemble data (nat payloadStartOffset) 0 (replicate (nat size') 0) of
                       Inl e \<Rightarrow> Inl e
                     | Inr pesData \<Rightarrow>
                         Inr (Some \<lparr>pes_data = pesData, pes_pts = pesPts, pes_dts = pesDts,
                                    pes_len = (if pesLen \<noteq> 0 then pesLen - (pesHdrLen + 3)
                                               else pesLen)\<rparr>)))))
         else Inr None))"

text \<open>An accumulator as \<open>push\<close> builds it: \<open>size\<close> is the sum of the slice lengths.\<close>

definition stream_of :: "byte list list \<Rightarrow> pes_stream" where
  "stream_of d = \<lparr>s_data = d, s_size = int (length (concat d))\<rparr>"

text \<open>
  The five timestamp bytes of a PES header in the standard layout (ISO/IEC 13818-1):
  a four-bit prefix, bits 32..30, a marker bit; bits 29..22; bits 21..15, a marker bit;
  bits 14..7; bits 6..0, a marker bit.
\<close>

definition pts_field :: "nat \<Rightarrow> nat \<Rightarrow> byte list" where
  "pts_field pre p =
     [of_nat (16 * pre + 2 * (p div 1073741824 mod 8) + 1),
      of_nat (p div 4194304 mod 256),
      of_nat (2 * (p div 32768 mod 128) + 1),
      of_nat (p div 128 mod 256),
      of_nat (2 * (p mod 128) + 1)]"

text \<open>
  The claims' words: the first three bytes are the start-code prefix 0x000001; the PES
  length field of bytes 4 and 5; the PTS formula of the specification.
\<close>

definition start_code_prefix :: "byte list \<Rightarrow> bool" where
  "start_code_prefix w = (3 \<le> length w \<and> w ! 0 = 0 \<and> w ! 1 = 0 \<and> w ! 2 = 1)"

definition pes_length_field :: "byte list \<Rightarrow> int" where
  "pes_length_field w = uint (w ! 4) * 256 + uint (w ! 5)"

definition pts_formula :: "byte list \<Rightarrow> int" where
  "pts_formula b = uint (b ! 9 AND 0x0E) * 2 ^ 29 + uint (b ! 10) * 2 ^ 22 +
                   uint (b ! 11 AND 0xFE) * 2 ^ 14 + uint (b ! 12) * 2 ^ 7 +
                   uint (b ! 13 AND 0xFE) div 2"

text \<open>The claims' wrap: a 33-bit value above \<open>2^32 - 1\<close> is read as \<open>p - 2^33\<close>.\<close>

definition wrap33 :: "nat \<Rightarrow> int" where
  "wrap33 p = (if p \<le> 4294967295 then int p else int p - 8589934592)"

section \<open>HEVC SPS bit reader: \<open>HEVCSpsParser\<close>\<close>

text \<open>
  The fields the constructor of \<open>HEVCSpsParser\<close> sets. \<open>cache\<close> only ever holds the
  result of \<open>(cache << 8) | firstByte\<close> (or its initial 0xff), a 32-bit integer;
  \<open>firstByte\<close> holds the initial 0xff or a byte returned by \<open>getByte\<close>.
\<close>

record sps_parser =
  sp_data :: "byte list"
  bytesAvailable :: nat
  bitsAvailable :: nat
  firstByte :: byte
  cache :: "32 word"
  bitsInCache :: nat

definition HEVCSpsParser :: "byte list \<Rightarrow> sps_parser" where
  "HEVCSpsParser data =
     \<lparr>sp_data = data, bytesAvailable = length data, bitsAvailable = 0,
      firstByte = 0xff, cache = 0xff, bitsInCache = 0\<rparr>"

text \<open>
  \<open>getByte()\<close>. \<open>byte.set(src)\<close> on the one-element array \<open>byte\<close> throws a RangeError
  when \<open>src\<close> has more than one element, and leaves the initial 0 when \<open>src\<close> is empty.
\<close>

definition getByte :: "sps_parser \<Rightarrow> js_error + (byte \<times> sps_parser)" where
  "getByte p =
     (let position = int (length (sp_data p)) - int (bytesAvailable p);
          availableBytes = min 1 (bytesAvailable p);
          src = subarray (sp_data p) position (position + int availableBytes)
      in if length src > 1 then Inl (RangeError ''offset is out of bounds'')
         else Inr (case src of [] \<Rightarrow> 0 | x # _ \<Rightarrow> x,
                   p\<lparr>bitsAvailable := availableBytes * 8,
                     bytesAvailable := bytesAvailable p - availableBytes\<rparr>))"

text \<open>\<open>getByte\<close> leaves \<open>bitsInCache\<close> alone, which is why the loop of \<open>read\<close> ends.\<close>

lemma getByte_bitsInCache:
  "getByte p = Inr (b, q) \<Longrightarrow> bitsInCache q = bitsInCache p"
  by (auto simp: getByte_def Let_def split: if_splits)

text \<open>
  \<open>read(nbits)\<close>: the \<open>while (this.bitsInCache < nbits)\<close> loop. A 0x03 that follows
  two zero bytes (\<open>firstByte\<close> and the low byte of \<open>cache\<close>) is replaced by the next byte.
\<close>

function read :: "sps_parser \<Rightarrow> nat \<Rightarrow> js_error + sps_parser" where
  "read p nbits =
     (if bitsInCache p < nbits then
        (case getByte p of
           Inl e \<Rightarrow> Inl e
         | Inr (byte, p1) \<Rightarrow>
             (if byte = 0x03 \<and> firstByte p1 = 0x00 \<and> cache p1 AND 0xff = 0 then
                (case getByte p1 of
                   Inl e \<Rightarrow> Inl e
                 | Inr (byte2, p2) \<Rightarrow>
                     read (p2\<lparr>cache := push_bit 8 (cache p2) OR ucast (firstByte p2),
                              firstByte := byte2,
                              bitsInCache := bitsInCache p2 + 8\<rparr>) nbits)
              else
                read (p1\<lparr>cache := push_bit 8 (cache p1) OR ucast (firstByte p1),
                         firstByte := byte,
                         bitsInCache := bitsInCache p1 + 8\<rparr>) nbits))
      else Inr p)"
  by pat_completeness auto

termination
proof (relation "measure (\<lambda>(p, nbits). nbits - bitsInCache p)")
  show "wf (measure (\<lambda>(p, nbits). nbits - bitsInCache p))" by simp
next
  fix p :: sps_parser and nbits x2 and x y x2a x2b xa ya
  assume "bitsInCache p < nbits" "getByte p = Inr x2" "(x, y) = x2"
    "x = 3 \<and> firstByte y = 0 \<and> cache y AND 255 = 0" "getByte y = Inr x2b" "(xa, ya) = x2b"
  then show "((ya\<lparr>cache := push_bit 8 (cache ya) OR ucast (firstByte ya), firstByte := xa,
                  bitsInCache := bitsInCache ya + 8\<rparr>, nbits), p, nbits)
             \<in> measure (\<lambda>(p, nbits). nbits - bitsInCache p)"
    using getByte_bitsInCache [of p x y] getByte_bitsInCache [of y xa ya] by auto
next
  fix p :: sps_parser and nbits x2 and x y
  assume "bitsInCache p < nbits" "getByte p = Inr x2" "(x, y) = x2"
  then show "((y\<lparr>cache := push_bit 8 (cache y) OR ucast (firstByte y), firstByte := x,
                 bitsInCache := bitsInCache y + 8\<rparr>, nbits), p, nbits)
             \<in> measure (\<lambda>(p, nbits). nbits - bitsInCache p)"
    using getByte_bitsInCache [of p x y] by auto
qed

declare read.simps [simp del]

text \<open>
  \<open>skipBits(nbits)\<close> and \<open>readBits(nbits)\<close>. JavaScript's shifts work on 32-bit integers
  and use the shift count modulo 32; \<open>>>\<close> keeps the sign. The result of \<open>readBits\<close> is
  the 32-bit integer \<open>val\<close> read as a signed number.
\<close>

definition skipBits :: "sps_parser \<Rightarrow> nat \<Rightarrow> js_error + sps_parser" where
  "skipBits p nbits =
     (case read p nbits of
        Inl e \<Rightarrow> Inl e
      | Inr p1 \<Rightarrow> Inr (p1\<lparr>bitsInCache := bitsInCache p1 - nbits\<rparr>))"

definition readBits :: "sps_parser \<Rightarrow> nat \<Rightarrow> js_error + (int \<times> sps_parser)" where
  "readBits p nbits =
     (case read p nbits of
        Inl e \<Rightarrow> Inl e
      | Inr p1 \<Rightarrow>
          (let shift = int (bitsInCache p1) - int nbits;
               val0 = signed_drop_bit (nat (shift mod 32)) (ucast (firstByte p1) :: 32 word);
               val1 = val0 OR push_bit (nat ((8 - shift) mod 32)) (cache p1);
               val2 = val1 AND (push_bit (nbits mod 32) 1 - 1)
           in Inr (sint val2, p1\<lparr>bitsInCache := nat shift\<rparr>)))"

text \<open>A sequence of \<open>readBits\<close> and \<open>skipBits\<close> calls, and the values the reads return.\<close>

datatype bit_op = ReadBits nat | SkipBits nat

fun run_ops :: "sps_parser \<Rightarrow> bit_op list \<Rightarrow> js_error + (int list \<times> sps_parser)" where
  "run_ops p [] = Inr ([], p)"
| "run_ops p (ReadBits n # ops) =
     (case readBits p n of
        Inl e \<Rightarrow> Inl e
      | Inr (v, p1) \<Rightarrow>
          (case run_ops p1 ops of Inl e \<Rightarrow> Inl e | Inr (vs, p2) \<Rightarrow> Inr (v # vs, p2)))"
| "run_ops p (SkipBits n # ops) =
     (case skipBits p n of Inl e \<Rightarrow> Inl e | Inr p1 \<Rightarrow> run_ops p1 ops)"

text \<open>
  The relation between a reader over \<open>data\<close> and a reader over \<open>data\<close> followed by
  \<open>k\<close> zero bytes, at the same point of the same sequence of calls: while input is
  left both are at the same position; past the end of \<open>data\<close> the second reader is
  somewhere in the zeros.
\<close>

definition zext :: "nat \<Rightarrow> sps_parser \<Rightarrow> sps_parser \<Rightarrow> bool" where
  "zext k p p' =
     (sp_data p' = sp_data p @ replicate k 0 \<and>
      bytesAvailable p \<le> length (sp_data p) \<and>
      (if bytesAvailable p > 0 then bytesAvailable p' = bytesAvailable p + k
       else bytesAvailable p' \<le> k) \<and>
      firstByte p' = firstByte p \<and> cache p' = cache p \<and> bitsInCache p' = bitsInCache p)"

section \<open>The demuxer object: tracks, \<open>createTrack\<close>, \<open>resetInitSegment\<close>\<close>

text \<open>
  A NAL unit as the scanners build it: \<open>{data, type}\<close>, and \<open>{data, type, state}\<close> for
  the unit that is still open at the end of a scan (\<open>u_state = None\<close>: no \<open>state\<close>
  property). A video sample as \<open>_parseHEVCPES\<close> builds it:
  \<open>{units: {units, length}, pts, dts, key}\<close>.
\<close>

record nal_unit =
  u_data :: "byte list"
  u_type :: int
  u_state :: "int option"

record video_sample =
  vs_units :: "nal_unit list"
  vs_length :: int
  vs_pts :: "int option"
  vs_dts :: "int option"
  vs_key :: bool

text \<open>
  The object literals of \<open>resetInitSegment\<close>. The video track literal has the
  properties \<open>streamType\<close> and \<open>PID\<close> and no \<open>id\<close> property (\<open>vt_id = None\<close>: reading
  it gives \<open>undefined\<close>); the audio, id3 and text literals have an \<open>id\<close> and no \<open>PID\<close>.
  \<open>naluState\<close> is a property that \<open>_parseAVCNALu\<close> adds to its track; no literal has it.
\<close>

record video_track =
  vt_container :: string
  vt_type :: string
  vt_id :: "int option"
  vt_streamType :: int
  vt_PID :: int
  vt_sequenceNumber :: int
  vt_samples :: "video_sample list"
  vt_len :: int
  vt_nbNalu :: int
  vt_dropped :: int
  vt_naluState :: "int option"

record 's es_track =
  et_container :: "string option"
  et_type :: string
  et_id :: int
  et_sequenceNumber :: int
  et_samples :: "'s list"
  et_len :: int

record audio_sample =
  as_unit :: "byte list"
  as_pts :: int
  as_dts :: int

text \<open>
  The properties of \<open>this\<close>. \<open>resetInitSegment\<close> assigns the first group. The second
  group it leaves alone: \<open>lastCC\<close> (constructor), \<open>avcNaluState\<close> (assigned only at the
  end of \<open>_parseHEVCNALu\<close>, and read before that), and \<open>_avcTrack\<close> and \<open>_audioTrack\<close>,
  which the class reads and never assigns; \<open>None\<close> is \<open>undefined\<close>.
\<close>

record tsdemuxer =
  pmtParsed :: bool
  pmtId :: int
  videoTrack :: video_track
  aacTrack :: "audio_sample es_track"
  id3Track :: "pes es_track"
  txtTrack :: "cea_sample es_track"
  aacOverFlow :: "byte list option"
  aacLastPTS :: "int option"
  avcSample :: "video_sample option"
  audioCodec :: string
  videoCodec :: string
  duration :: int
  lastCC :: int
  avcNaluState :: "int option"
  avcTrack :: "video_track option"
  audioTrack :: "audio_sample es_track option"

definition resetInitSegment :: "tsdemuxer \<Rightarrow> string \<Rightarrow> string \<Rightarrow> int \<Rightarrow> tsdemuxer" where
  "resetInitSegment this audioCodec' videoCodec' duration' =
     this\<lparr>pmtParsed := False,
          pmtId := - 1,
          videoTrack := \<lparr>vt_container = ''video/mp2t'', vt_type = ''video'', vt_id = None,
                          vt_streamType = - 1, vt_PID = - 1, vt_sequenceNumber = 0,
                          vt_samples = [], vt_len = 0, vt_nbNalu = 0, vt_dropped = 0,
                          vt_naluState = None\<rparr>,
          aacTrack := \<lparr>et_container = Some ''video/mp2t'', et_type = ''audio'', et_id = - 1,
                        et_sequenceNumber = 0, et_samples = [], et_len = 0\<rparr>,
          id3Track := \<lparr>et_container = None, et_type = ''id3'', et_id = - 1,
                        et_sequenceNumber = 0, et_samples = [], et_len = 0\<rparr>,
          txtTrack := \<lparr>et_container = None, et_type = ''text'', et_id = - 1,
                        et_sequenceNumber = 0, et_samples = [], et_len = 0\<rparr>,
          aacOverFlow := None,
          aacLastPTS := None,
          avcSample := None,
          audioCodec := audioCodec',
          videoCodec := videoCodec',
          duration := duration'\<rparr>"

text \<open>
  \<open>RemuxerTrackIdConfig\<close> and the static \<open>createTrack(type, duration)\<close>, which no
  method of the class calls.
\<close>

definition RemuxerTrackIdConfig :: "string \<Rightarrow> int option" where
  "RemuxerTrackIdConfig type =
     (if type = ''video'' then Some 0 else if type = ''audio'' then Some 1
      else if type = ''id3'' then Some 2 else if type = ''text'' then Some 3 else None)"

record created_track =
  ct_container :: "string option"
  ct_type :: string
  ct_id :: "int option"
  ct_pid :: int
  ct_inputTimeScale :: int
  ct_sequenceNumber :: int
  ct_samples :: "unit list"
  ct_len :: int
  ct_dropped :: "int option"
  ct_isAAC :: "bool option"
  ct_duration :: "int option"

definition createTrack :: "string \<Rightarrow> int \<Rightarrow> created_track" where
  "createTrack type duration' =
     \<lparr>ct_container = (if type = ''video'' \<or> type = ''audio'' then Some ''video/mp2t'' else None),
      ct_type = type,
      ct_id = RemuxerTrackIdConfig type,
      ct_pid = - 1,
      ct_inputTimeScale = 90000,
      ct_sequenceNumber = 0,
      ct_samples = [],
      ct_len = 0,
      ct_dropped = (if type = ''video'' then Some 0 else None),
      ct_isAAC = (if type = ''audio'' then Some True else None),
      ct_duration = (if type = ''audio'' then Some duration' else None)\<rparr>"

text \<open>
  An object on which no method has run yet, for the examples: \<open>lastCC = 0\<close> from the
  constructor, \<open>avcNaluState\<close>, \<open>_avcTrack\<close> and \<open>_audioTrack\<close> undefined. The properties
  that \<open>resetInitSegment\<close> assigns are written here with the values it assigns; no
  example reads them before a reset.
\<close>

definition constructed :: tsdemuxer where
  "constructed =
     \<lparr>pmtParsed = False, pmtId = - 1,
      videoTrack = \<lparr>vt_container = ''video/mp2t'', vt_type = ''video'', vt_id = None,
                     vt_streamType = - 1, vt_PID = - 1, vt_sequenceNumber = 0,
                     vt_samples = [], vt_len = 0, vt_nbNalu = 0, vt_dropped = 0,
                          vt_naluState = None\<rparr>,
      aacTrack = \<lparr>et_container = Some ''video/mp2t'', et_type = ''audio'', et_id = - 1,
                   et_sequenceNumber = 0, et_samples = [], et_len = 0\<rparr>,
      id3Track = \<lparr>et_container = None, et_type = ''id3'', et_id = - 1,
                   et_sequenceNumber = 0, et_samples = [], et_len = 0\<rparr>,
      txtTrack = \<lparr>et_container = None, et_type = ''text'', et_id = - 1,
                   et_sequenceNumber = 0, et_samples = [], et_len = 0\<rparr>,
      aacOverFlow = None, aacLastPTS = None, avcSample = None,
      audioCodec = [], videoCodec = [], duration = 0,
      lastCC = 0, avcNaluState = None, avcTrack = None, audioTrack = None\<rparr>"

section \<open>PAT and PMT: \<open>_parsePAT\<close>, \<open>_parsePMT\<close> and the PMT case of \<open>push\<close>\<close>

text \<open>
  \<open>(hi << 8) | lo\<close> on 32-bit integers, for two bytes. The tables read every byte
  through \<open>&\<close> or \<open>|\<close>, so a byte past the end of the buffer counts as 0.
\<close>

definition shl8_or :: "byte \<Rightarrow> byte \<Rightarrow> int" where
  "shl8_or hi lo = sint (push_bit 8 (ucast hi :: 32 word) OR ucast lo)"

definition parsePAT :: "byte list \<Rightarrow> nat \<Rightarrow> int" where
  "parsePAT data offset =
     shl8_or (byte0 data (offset + 10) AND 0x1F) (byte0 data (offset + 11))"

text \<open>
  The result object of \<open>_parsePMT\<close>. The literal has the properties \<open>aac\<close>,
  \<open>videoPID\<close>, \<open>videoStreamType\<close> and \<open>id3\<close>; the AAC case reads and writes a fifth
  property, \<open>audio\<close>, which the literal does not have (\<open>None\<close>: \<open>undefined\<close>).
\<close>

record pmt_result =
  r_aac :: int
  r_videoPID :: int
  r_videoStreamType :: int
  r_id3 :: int
  r_audio :: "int option"

text \<open>
  The \<open>while (offset < tableEnd)\<close> loop of \<open>_parsePMT\<close>. \<open>streamType = data[offset]\<close>
  is \<open>undefined\<close> past the end of the buffer and then matches no case of the switch.
  \<open>result.audio === -1\<close> is false while \<open>result.audio\<close> is \<open>undefined\<close>.
\<close>

function pmt_entries :: "byte list \<Rightarrow> nat \<Rightarrow> int \<Rightarrow> pmt_result \<Rightarrow> pmt_result" where
  "pmt_entries data offset tableEnd result =
     (if int offset < tableEnd then
        (let pid = shl8_or (byte0 data (offset + 1) AND 0x1F) (byte0 data (offset + 2));
             streamType = (if offset < length data then Some (data ! offset) else None);
             result' =
               (if streamType = Some 0x0f then
                  (if r_audio result = Some (- 1) then result\<lparr>r_audio := Some pid\<rparr> else result)
                else if streamType = Some 0x15 then
                  (if r_id3 result = - 1 then result\<lparr>r_id3 := pid\<rparr> else result)
                else if streamType = Some 0x24 then
                  (if r_videoPID result = - 1
                   then result\<lparr>r_videoPID := pid, r_videoStreamType := 0x24\<rparr> else result)
                else if streamType = Some 0x1b then
                  (if r_videoPID result = - 1
                   then result\<lparr>r_videoPID := pid, r_videoStreamType := 0x1b\<rparr> else result)
                else result)
         in pmt_entries data
              (offset + nat (shl8_or (byte0 data (offset + 3) AND 0x0F) (byte0 data (offset + 4))) + 5)
              tableEnd result')
      else result)"
  by pat_completeness auto

termination
  by (relation "measure (\<lambda>(data, offset, tableEnd, result). nat (tableEnd - int offset))") auto

declare pmt_entries.simps [simp del]

definition parsePMT :: "byte list \<Rightarrow> nat \<Rightarrow> pmt_result" where
  "parsePMT data offset =
     (let sectionLength = shl8_or (byte0 data (offset + 1) AND 0x0f) (byte0 data (offset + 2));
          tableEnd = int offset + 3 + sectionLength - 4;
          programInfoLength =
            shl8_or (byte0 data (offset + 10) AND 0x0f) (byte0 data (offset + 11))
      in pmt_entries data (offset + (12 + nat programInfoLength)) tableEnd
           \<lparr>r_aac = - 1, r_videoPID = - 1, r_videoStreamType = - 1, r_id3 = - 1,
            r_audio = None\<rparr>)"

text \<open>
  The statements of \<open>case pmtId:\<close> in the packet loop of \<open>push\<close> that write to
  \<open>this\<close>: the pointer field is skipped on a payload-unit start, the table is parsed and
  its four results are stored. With the pointer byte missing (\<open>data[offset]\<close> undefined)
  \<open>offset\<close> becomes NaN, every read of \<open>_parsePMT\<close> is then \<open>undefined\<close> and its loop
  is not entered: the result is the initial object.
\<close>

definition push_case_pmtId :: "tsdemuxer \<Rightarrow> byte list \<Rightarrow> nat \<Rightarrow> bool \<Rightarrow> tsdemuxer" where
  "push_case_pmtId this data offset stt =
     (let parsedPIDs =
            (if stt then
               (if offset < length data then parsePMT data (offset + (unat (data ! offset) + 1))
                else \<lparr>r_aac = - 1, r_videoPID = - 1, r_videoStreamType = - 1, r_id3 = - 1,
                      r_audio = None\<rparr>)
             else parsePMT data offset)
      in this\<lparr>videoTrack := (videoTrack this)\<lparr>vt_PID := r_videoPID parsedPIDs,
                                               vt_streamType := r_videoStreamType parsedPIDs\<rparr>,
              aacTrack := (aacTrack this)\<lparr>et_id := r_aac parsedPIDs\<rparr>,
              id3Track := (id3Track this)\<lparr>et_id := r_id3 parsedPIDs\<rparr>,
              pmtParsed := True\<rparr>)"

text \<open>
  A PMT section for the examples: HEVC video on PID 0x100, AAC audio on PID 0x101, ID3 on
  PID 0x102, behind a pointer field of 0.
\<close>

definition pmt_section :: "byte list" where
  "pmt_section =
     [0x00,
      0x02, 0xB0, 0x1C, 0x00, 0x01, 0xC1, 0x00, 0x00, 0xE1, 0x00, 0xF0, 0x00,
      0x24, 0xE1, 0x00, 0xF0, 0x00,
      0x0F, 0xE1, 0x01, 0xF0, 0x00,
      0x15, 0xE1, 0x02, 0xF0, 0x00,
      0x00, 0x00, 0x00, 0x00]"

section \<open>AAC payloads: the ADTS header search of \<open>_parseAACPES\<close>\<close>

text \<open>
  The payload of the one \<open>observer.trigger(Event.ERROR, ...)\<close> call of \<open>_parseAACPES\<close>:
  \<open>{type: ErrorTypes.MEDIA_ERROR, details: ErrorDetails.FRAG_PARSING_ERROR, fatal, reason}\<close>.
\<close>

datatype error_type = MEDIA_ERROR

datatype error_details = FRAG_PARSING_ERROR

record error_event =
  ev_type :: error_type
  ev_details :: error_details
  ev_fatal :: bool
  ev_reason :: string

text \<open>The decimal digits of \<open>offset\<close>, as the template literal prints the number.\<close>

function decimal :: "nat \<Rightarrow> string" where
  "decimal n =
     (if n < 10 then [''0123456789'' ! n]
      else decimal (n div 10) @ [''0123456789'' ! (n mod 10)])"
  by pat_completeness auto

termination
  by (relation "measure id") auto

declare decimal.simps [simp del]

text \<open>
  The search loop \<open>for (offset = startOffset, len = data.length; offset < len - 1; offset++)\<close>
  with its \<open>break\<close> on \<open>ADTS.isHeader(data, offset)\<close>; the value is \<open>offset\<close> after the
  loop. \<open>ADTS\<close> is the module \<open>./adts\<close>, which is not among the sources: \<open>isHeader\<close> is a
  parameter.
\<close>

function find_header :: "(byte list \<Rightarrow> nat \<Rightarrow> bool) \<Rightarrow> byte list \<Rightarrow> nat \<Rightarrow> nat" where
  "find_header isHeader data offset =
     (if offset + 1 < length data then
        (if isHeader data offset then offset else find_header isHeader data (offset + 1))
      else offset)"
  by pat_completeness auto

termination
  by (relation "measure (\<lambda>(isHeader, data, offset). length data - offset)") auto

declare find_header.simps [simp del]

text \<open>
  \<open>_parseAACPES(pes)\<close>, from its entry to the read of \<open>track.samplerate\<close> in
  \<open>frameDuration = ADTS.getFrameDuration(track.samplerate)\<close>. The result is the list of
  events the observer received and either the exception thrown or \<open>this\<close> at the return.
  \<^item> The declarations read \<open>track = this._audioTrack\<close>, which no method of the class
    assigns, and \<open>pes.data\<close>, a TypeError on a \<open>null\<close> argument.
  \<^item> The overflow of the previous PES is put in front of the payload, the header is
    searched, and an offset other than 0 is reported to the observer; after a fatal
    report the function returns, with \<open>this\<close> as it was.
  \<^item> \<open>ADTS.initTrackConfig(track, this.observer, data, offset, this.audioCodec)\<close> is a
    function of the missing module and a parameter here: it gives the events it
    triggers and either an exception or the change it makes to the track object. It
    gets \<open>track\<close> by value, so a \<open>track\<close> that is \<open>undefined\<close> before the call is
    \<open>undefined\<close> after it.
  \<^item> \<open>track.samplerate\<close> on an \<open>undefined\<close> track is a TypeError.
  \<^item> What follows that read (the PTS alignment, the frame scan with
    \<open>ADTS.appendFrame\<close>, the stores to \<open>aacOverFlow\<close> and \<open>aacLastPTS\<close>) is the
    parameter \<open>rest\<close>; it runs only with a track object.
\<close>

definition parseAACPES ::
  "(byte list \<Rightarrow> nat \<Rightarrow> bool) \<Rightarrow>
   (audio_sample es_track option \<Rightarrow> byte list \<Rightarrow> nat \<Rightarrow> string \<Rightarrow>
      error_event list \<times> (js_error + (audio_sample es_track \<Rightarrow> audio_sample es_track))) \<Rightarrow>
   (tsdemuxer \<Rightarrow> pes \<Rightarrow> byte list \<Rightarrow> nat \<Rightarrow> error_event list \<times> (js_error + tsdemuxer)) \<Rightarrow>
   tsdemuxer \<Rightarrow> pes option \<Rightarrow> error_event list \<times> (js_error + tsdemuxer)" where
  "parseAACPES isHeader initTrackConfig rest this pes =
     (let track = audioTrack this in
      case pes of
        None \<Rightarrow> ([], Inl (TypeError ''Cannot read properties of null (reading data)''))
      | Some pes' \<Rightarrow>
          (let data = (case aacOverFlow this of
                         Some overflow \<Rightarrow> overflow @ pes_data pes'
                       | None \<Rightarrow> pes_data pes');
               len = length data;
               offset = find_header isHeader data 0;
               (events, fatal) =
                 (if offset \<noteq> 0 then
                    (let (reason, fatal) =
                           (if offset + 1 < len
                            then (''AAC PES did not start with ADTS header,offset:'' @
                                    decimal offset, False)
                            else (''no ADTS header found in AAC PES'', True))
                     in ([\<lparr>ev_type = MEDIA_ERROR, ev_details = FRAG_PARSING_ERROR,
                            ev_fatal = fatal, ev_reason = reason\<rparr>], fatal))
                  else ([], False))
           in if fatal then (events, Inr this)
              else
                (case initTrackConfig track data offset (audioCodec this) of
                   (evs, Inl e) \<Rightarrow> (events @ evs, Inl e)
                 | (evs, Inr change) \<Rightarrow>
                     (case track of
                        None \<Rightarrow>
                          (events @ evs,
                           Inl (TypeError
                                  ''Cannot read properties of undefined (reading samplerate)''))
                      | Some t \<Rightarrow>
                          (let (evs', r) = rest (this\<lparr>audioTrack := Some (change t)\<rparr>)
                                             pes' data offset
                           in (events @ evs @ evs', r))))))"

text \<open>
  Modelled from the spec: \<open>ADTS.isHeader\<close> of the missing module \<open>./adts\<close>, for the
  examples only. The specification describes the header by its syncword \<open>0xFFFx\<close>: a
  byte 0xFF followed by a byte whose high four bits are set.
\<close>

definition isHeader_syncword :: "byte list \<Rightarrow> nat \<Rightarrow> bool" where
  "isHeader_syncword data offset =
     (offset + 1 < length data \<and> data ! offset = 0xFF \<and> data ! (offset + 1) AND 0xF0 = 0xF0)"

definition pes_of :: "byte list \<Rightarrow> pes" where
  "pes_of d = \<lparr>pes_data = d, pes_pts = Some 90000, pes_dts = Some 90000, pes_len = 0\<rparr>"

section \<open>NAL unit scanners: \<open>_parseHEVCNALu\<close> and \<open>_parseAVCNALu\<close>\<close>

text \<open>A property used as a condition (\<open>if (lastUnit.state)\<close>): \<open>undefined\<close> and 0 are falsy.\<close>

definition truthy :: "int option \<Rightarrow> bool" where
  "truthy v = (case v of None \<Rightarrow> False | Some n \<Rightarrow> n \<noteq> 0)"

text \<open>
  The local variables of \<open>_parseHEVCNALu\<close> that its loop changes, with \<open>this\<close>.
  \<open>state\<close> starts as \<open>this.avcNaluState\<close> and \<open>lastUnitStart\<close> as \<open>undefined\<close>.
\<close>

record hevc_scan =
  sc_state :: "int option"
  sc_units :: "nal_unit list"
  sc_lastUnitStart :: "nat option"
  sc_lastUnitType :: int
  sc_this :: tsdemuxer

text \<open>
  The first start code of a scan, when the previous scan left a state other than 0 and
  the code ends within the first \<open>4 - lastState\<close> bytes: the last \<open>lastState\<close> bytes of
  the last unit of the last sample of \<open>this._videoTrack\<close> are cut off, if that unit
  recorded a state. \<open>lastUnits[lastUnits.length - 1]\<close> of an empty list is \<open>undefined\<close>,
  and reading \<open>state\<close> from it is a TypeError.
\<close>

definition hevc_strip :: "tsdemuxer \<Rightarrow> int \<Rightarrow> js_error + tsdemuxer" where
  "hevc_strip this lastState =
     (let track = videoTrack this;
          samples = vt_samples track
      in if samples \<noteq> [] then
           (let lastavcSample = last samples;
                lastUnits = vs_units lastavcSample
            in if lastUnits = [] then
                 Inl (TypeError ''Cannot read properties of undefined (reading state)'')
               else
                 (let lastUnit = last lastUnits
                  in if truthy (u_state lastUnit) then
                       Inr (this\<lparr>videoTrack := track
                              \<lparr>vt_samples := butlast samples @
                                 [lastavcSample
                                    \<lparr>vs_units := butlast lastUnits @
                                       [lastUnit\<lparr>u_data := subarray (u_data lastUnit) 0
                                          (int (length (u_data lastUnit)) - lastState)\<rparr>],
                                     vs_length := vs_length lastavcSample - lastState\<rparr>],
                               vt_len := vt_len track - lastState\<rparr>\<rparr>)
                     else Inr this))
         else Inr this)"

text \<open>
  The bytes in front of the first start code of a scan (\<open>overflow > 0\<close>) are appended
  to the last unit of the last sample of \<open>this._avcTrack\<close>; with \<open>this._avcTrack\<close>
  undefined, \<open>track.samples\<close> is a TypeError.
\<close>

definition hevc_overflow :: "tsdemuxer \<Rightarrow> byte list \<Rightarrow> int \<Rightarrow> js_error + tsdemuxer" where
  "hevc_overflow this array overflow =
     (if overflow > 0 then
        (case avcTrack this of
           None \<Rightarrow> Inl (TypeError ''Cannot read properties of undefined (reading samples)'')
         | Some track \<Rightarrow>
             (let samples = vt_samples track
              in if samples \<noteq> [] then
                   (let lastavcSample = last samples;
                        lastUnits = vs_units lastavcSample
                    in if lastUnits = [] then
                         Inl (TypeError ''Cannot read properties of undefined (reading data)'')
                       else
                         (let lastUnit = last lastUnits
                          in Inr (this\<lparr>avcTrack := Some (track
                                 \<lparr>vt_samples := butlast samples @
                                    [lastavcSample
                                       \<lparr>vs_units := butlast lastUnits @
                                          [lastUnit\<lparr>u_data := u_data lastUnit @
                                             subarray array 0 overflow\<rparr>],
                                        vs_length := vs_length lastavcSample + overflow\<rparr>],
                                  vt_len := vt_len track + overflow\<rparr>)\<rparr>)))
                 else Inr this))
      else Inr this)"

text \<open>
  The branch \<open>value === 1 && i < len\<close> of states 2 and 3: a start code ends at index
  \<open>i - 1\<close> and the unit starts at \<open>i\<close>. \<open>if (lastUnitStart)\<close> is false for
  \<open>undefined\<close> (and for 0, which \<open>lastUnitStart\<close> never is).
\<close>

definition hevc_start_code :: "byte list \<Rightarrow> nat \<Rightarrow> int \<Rightarrow> hevc_scan \<Rightarrow> js_error + hevc_scan" where
  "hevc_start_code array i state s =
     (let unitType = uint (drop_bit 1 (array ! i) AND 0x3F);
          found = (\<lambda>s'. s'\<lparr>sc_lastUnitStart := Some i, sc_lastUnitType := unitType,
                            sc_state := Some 0\<rparr>)
      in if (case sc_lastUnitStart s of None \<Rightarrow> False | Some l \<Rightarrow> l \<noteq> 0) then
           Inr (found (s\<lparr>sc_units := sc_units s @
                  [\<lparr>u_data = subarray array (int (the (sc_lastUnitStart s))) (int i - state - 1),
                    u_type = sc_lastUnitType s, u_state = None\<rparr>]\<rparr>))
         else
           (let lastState = avcNaluState (sc_this s)
            in case (if truthy lastState \<and> int i \<le> 4 - the lastState
                     then hevc_strip (sc_this s) (the lastState) else Inr (sc_this s)) of
                 Inl e \<Rightarrow> Inl e
               | Inr this1 \<Rightarrow>
                   (case hevc_overflow this1 array (int i - state - 1) of
                      Inl e \<Rightarrow> Inl e
                    | Inr this2 \<Rightarrow> Inr (found (s\<lparr>sc_this := this2\<rparr>)))))"

text \<open>
  The \<open>while (i < len)\<close> loop with its \<open>switch (state)\<close>. A \<open>state\<close> that is none of
  0, 1, 2, 3 (in particular \<open>undefined\<close>) takes the \<open>default\<close> branch, which does nothing.
\<close>

function hevc_scan_loop :: "byte list \<Rightarrow> nat \<Rightarrow> hevc_scan \<Rightarrow> js_error + hevc_scan" where
  "hevc_scan_loop array i s =
     (if i < length array then
        (let v = array ! i in
         if sc_state s = Some 0 then
           hevc_scan_loop array (i + 1) (if v = 0 then s\<lparr>sc_state := Some 1\<rparr> else s)
         else if sc_state s = Some 1 then
           hevc_scan_loop array (i + 1) (s\<lparr>sc_state := (if v = 0 then Some 2 else Some 0)\<rparr>)
         else if sc_state s = Some 2 \<or> sc_state s = Some 3 then
           (if v = 0 then hevc_scan_loop array (i + 1) (s\<lparr>sc_state := Some 3\<rparr>)
            else if v = 1 \<and> i + 1 < length array then
              (case hevc_start_code array (i + 1) (the (sc_state s)) s of
                 Inl e \<Rightarrow> Inl e
               | Inr s' \<Rightarrow> hevc_scan_loop array (i + 1) s')
            else hevc_scan_loop array (i + 1) (s\<lparr>sc_state := Some 0\<rparr>))
         else hevc_scan_loop array (i + 1) s)
      else Inr s)"
  by pat_completeness auto

termination
  by (relation "measure (\<lambda>(array, i, s). length array - i)") auto

declare hevc_scan_loop.simps [simp del]

text \<open>
  \<open>_parseHEVCNALu(array)\<close>: the units found and \<open>this\<close> afterwards. The unit that is
  open at the end records \<open>state\<close>, and only then is \<open>this.avcNaluState\<close> assigned.
\<close>

definition parseHEVCNALu :: "tsdemuxer \<Rightarrow> byte list \<Rightarrow> js_error + (nal_unit list \<times> tsdemuxer)" where
  "parseHEVCNALu this array =
     (case hevc_scan_loop array 0
             \<lparr>sc_state = avcNaluState this, sc_units = [], sc_lastUnitStart = None,
              sc_lastUnitType = 0, sc_this = this\<rparr> of
        Inl e \<Rightarrow> Inl e
      | Inr s \<Rightarrow>
          (if (case sc_lastUnitStart s of None \<Rightarrow> False | Some l \<Rightarrow> l \<noteq> 0) then
             Inr (sc_units s @
                    [\<lparr>u_data = subarray array (int (the (sc_lastUnitStart s))) (int (length array)),
                      u_type = sc_lastUnitType s,
                      u_state = sc_state s\<rparr>],
                  (sc_this s)\<lparr>avcNaluState := sc_state s\<rparr>)
           else Inr (sc_units s, sc_this s)))"

text \<open>
  The local variables of \<open>_parseAVCNALu\<close>; \<open>lastUnitStart\<close> starts as \<open>-1\<close>.
\<close>

record avc_scan =
  ac_state :: int
  ac_units :: "nal_unit list"
  ac_lastUnitStart :: int
  ac_lastUnitType :: int

text \<open>
  The loop of \<open>_parseAVCNALu\<close>. At the first start code of a scan (\<open>lastUnitStart\<close>
  still \<open>-1\<close>) the source calls \<open>this._getLastNalUnit()\<close>; the class has no such method,
  and the call is a TypeError.
\<close>

function avc_scan_loop :: "byte list \<Rightarrow> nat \<Rightarrow> avc_scan \<Rightarrow> js_error + avc_scan" where
  "avc_scan_loop array i s =
     (if i < length array then
        (let v = array ! i in
         if ac_state s = 0 then
           avc_scan_loop array (i + 1) (s\<lparr>ac_state := (if v \<noteq> 0 then 0 else 1)\<rparr>)
         else if ac_state s = 1 then
           avc_scan_loop array (i + 1) (s\<lparr>ac_state := (if v \<noteq> 0 then 0 else 2)\<rparr>)
         else if v = 0 then avc_scan_loop array (i + 1) (s\<lparr>ac_state := 3\<rparr>)
         else if v = 1 then
           (if ac_lastUnitStart s \<ge> 0 then
              (let s1 = s\<lparr>ac_units := ac_units s @
                           [\<lparr>u_data = subarray array (ac_lastUnitStart s)
                                        (int (i + 1) - ac_state s - 1),
                             u_type = ac_lastUnitType s, u_state = None\<rparr>]\<rparr>
               in avc_scan_loop array (i + 1)
                    (if i + 1 < length array
                     then s1\<lparr>ac_lastUnitStart := int (i + 1),
                             ac_lastUnitType := uint (array ! (i + 1) AND 0x1f),
                             ac_state := 0\<rparr>
                     else s1\<lparr>ac_state := - 1\<rparr>))
            else Inl (TypeError ''this._getLastNalUnit is not a function''))
         else avc_scan_loop array (i + 1) (s\<lparr>ac_state := 0\<rparr>))
      else Inr s)"
  by pat_completeness auto

termination
  by (relation "measure (\<lambda>(array, i, s). length array - i)") auto

declare avc_scan_loop.simps [simp del]

text \<open>
  \<open>_parseAVCNALu(array)\<close>. \<open>track = this._avcTrack\<close> is \<open>undefined\<close> unless something
  outside the class has assigned it, and then \<open>track.naluState\<close> in the declarations
  is a TypeError. With a track: \<open>state = track.naluState || 0\<close>; state \<open>-1\<close> means the
  previous scan ended right after a start code, and the unit starts at index 0
  (\<open>array[0] & 0x1f\<close> reads 0 from an empty array). A scan that found no unit calls the
  missing \<open>this._getLastNalUnit()\<close>.
\<close>

definition parseAVCNALu :: "tsdemuxer \<Rightarrow> byte list \<Rightarrow> js_error + (nal_unit list \<times> tsdemuxer)" where
  "parseAVCNALu this array =
     (case avcTrack this of
        None \<Rightarrow> Inl (TypeError ''Cannot read properties of undefined (reading naluState)'')
      | Some track \<Rightarrow>
          (let state0 = (if truthy (vt_naluState track) then the (vt_naluState track) else 0);
               s0 = (if state0 = - 1
                     then \<lparr>ac_state = 0, ac_units = [], ac_lastUnitStart = 0,
                           ac_lastUnitType = uint (byte0 array 0 AND 0x1f)\<rparr>
                     else \<lparr>ac_state = state0, ac_units = [], ac_lastUnitStart = - 1,
                           ac_lastUnitType = 0\<rparr>)
           in case avc_scan_loop array (if state0 = - 1 then 1 else 0) s0 of
                Inl e \<Rightarrow> Inl e
              | Inr s \<Rightarrow>
                  (let units = (if ac_lastUnitStart s \<ge> 0 \<and> ac_state s \<ge> 0
                                then ac_units s @
                                  [\<lparr>u_data = subarray array (ac_lastUnitStart s) (int (length array)),
                                    u_type = ac_lastUnitType s, u_state = Some (ac_state s)\<rparr>]
                                else ac_units s)
                   in if units = [] then Inl (TypeError ''this._getLastNalUnit is not a function'')
                      else Inr (units,
                                this\<lparr>avcTrack := Some (track\<lparr>vt_naluState := Some (ac_state s)\<rparr>)\<rparr>))))"

text \<open>
  Two consecutive HEVC PES payloads for the examples: a VPS unit (type 32) behind a
  four-byte start code, whose last byte is the first zero of the next start code, and an
  IDR unit (type 19) behind the other three bytes of that start code.
\<close>

definition pes_payload_1 :: "byte list" where
  "pes_payload_1 = [0x00, 0x00, 0x00, 0x01, 0x40, 0x01, 0xAA, 0x00]"

definition pes_payload_2 :: "byte list" where
  "pes_payload_2 = [0x00, 0x00, 0x01, 0x26, 0x01, 0xBB]"

section \<open>From \<open>_parsePES\<close> to the codec parsers: the hand-over in \<open>push\<close>\<close>









section \<open>Sync search and the entry of \<open>push\<close>\<close>

text \<open>
  The \<open>while (i < scanwindow)\<close> loop of \<open>_syncOffset\<close>, with
  \<open>scanwindow = Math.min(1000, data.length - 3*188)\<close>. Inside the window the three
  reads are within the buffer; a read outside would give \<open>undefined\<close>, which is not 0x47.
\<close>

function syncOffset_scan :: "byte list \<Rightarrow> int \<Rightarrow> nat \<Rightarrow> int" where
  "syncOffset_scan data scanwindow i =
     (if int i < scanwindow then
        (if i + 2 * 188 < length data \<and> data ! i = 0x47 \<and> data ! (i + 188) = 0x47 \<and>
            data ! (i + 2 * 188) = 0x47
         then int i
         else syncOffset_scan data scanwindow (i + 1))
      else - 1)"
  by pat_completeness auto

termination
  by (relation "measure (\<lambda>(data, scanwindow, i). nat (scanwindow - int i))") auto

declare syncOffset_scan.simps [simp del]

definition syncOffset :: "byte list \<Rightarrow> int" where
  "syncOffset data = syncOffset_scan data (min 1000 (int (length data) - 3 * 188)) 0"

definition probe :: "byte list \<Rightarrow> bool" where
  "probe data = (\<not> syncOffset data < 0)"

text \<open>
  A buffer of four packets for the examples: sync bytes at 0, 188, 376 and 564, PID
  0x1FFF (null packets), payload only.
\<close>

definition null_packet :: "byte list" where
  "null_packet = [0x47, 0x1F, 0xFF, 0x10] @ replicate 184 0"

definition four_null_packets :: "byte list" where
  "four_null_packets = null_packet @ null_packet @ null_packet @ null_packet"

text \<open>
  The names an identifier in the body of \<open>push\<close> can resolve to without the host:
  the parameters and the \<open>var\<close>, \<open>let\<close> and \<open>const\<close> declarations of \<open>push\<close>, and the
  imports and declarations of the module.
\<close>

definition push_bindings :: "string list" where
  "push_bindings =
     [''data'', ''audioCodec'', ''videoCodec'', ''timeOffset'', ''cc'', ''level'', ''sn'',
      ''duration'',
      ''videoData'', ''aacData'', ''id3Data'', ''start'', ''len'', ''stt'', ''pid'', ''atf'',
      ''offset'', ''codecsOnly'', ''unknownPIDs'',
      ''pmtParsed'', ''videoPID'', ''videoStreamType'', ''aacId'', ''id3Id'', ''pmtId'',
      ''parsePAT'', ''parsePMT'', ''parsePES'', ''parseHEVCPES'', ''parseAVCPES'',
      ''parseAACPES'', ''parseMPEGPES'', ''parseID3PES'',
      ''syncOffset'', ''pesData'', ''parsedPIDs'', ''pes'']"

definition module_bindings :: "string list" where
  "module_bindings =
     [''ADTS'', ''MpegAudio'', ''Event'', ''ExpGolomb'', ''HEVCSpsParser'', ''logger'',
      ''ErrorTypes'', ''ErrorDetails'', ''RemuxerTrackIdConfig'', ''TSDemuxer'']"

text \<open>
  Reading an identifier. A name bound in the function or the module has the value the
  code gave it (\<open>Inr None\<close>: nothing is asked of the host). Any other name is looked up
  on the host's global object, \<open>globals\<close>; a name that is not there either is an
  unresolvable reference, and reading it throws a ReferenceError.
\<close>

definition read_identifier ::
  "string list \<Rightarrow> (string \<Rightarrow> 'v option) \<Rightarrow> string \<Rightarrow> js_error + 'v option" where
  "read_identifier bindings globals name =
     (if name \<in> set bindings then Inr None
      else case globals name of
             Some v \<Rightarrow> Inr (Some v)
           | None \<Rightarrow> Inl (ReferenceError (name @ '' is not defined'')))"

text \<open>
  \<open>push(data, audioCodec, videoCodec, timeOffset, cc, level, sn, duration)\<close>. The
  declarations at its head read \<open>data.length\<close> and properties of \<open>this\<close>, and change
  nothing. The first statement after them is \<open>this.contiguous = contiguous\<close>, which
  reads the identifier \<open>contiguous\<close>. Everything after that read (the assignment, the
  packet loop, the final flush and the call of the remuxer) is the parameter \<open>rest\<close>,
  which receives the value read: what is proved of \<open>push\<close> below holds whatever the
  remaining statements do.
\<close>

definition push ::
  "(string \<Rightarrow> 'v option) \<Rightarrow> ('v option \<Rightarrow> tsdemuxer \<Rightarrow> byte list \<Rightarrow> js_error + 'r) \<Rightarrow>
   tsdemuxer \<Rightarrow> byte list \<Rightarrow> js_error + 'r" where
  "push globals rest this data =
     (case read_identifier (push_bindings @ module_bindings) globals ''contiguous'' of
        Inl e \<Rightarrow> Inl e
      | Inr v \<Rightarrow> rest v this data)"

section \<open>Properties: CEA-608 samples and \<open>_insertSampleInOrder\<close>\<close>

text \<open>
  Whenever the new sample is earlier than the last one, it is placed directly in front of
  the last one, whatever the rest of the track holds.
\<close>

lemma insertSampleInOrder_before_last:
  assumes "arr \<noteq> []" and "c_pts d < c_pts (last arr)"
  shows "insertSampleInOrder arr d = butlast arr @ [d, last arr]"
proof -
  obtain n where n: "length arr = Suc n"
    using assms(1) by (cases arr) auto
  have l: "last arr = arr ! n"
    using assms(1) n by (simp add: last_conv_nth)
  have t: "take n arr = butlast arr"
    using n by (simp add: butlast_conv_take)
  have d: "drop n arr = [last arr]"
    using n l by (simp add: Cons_nth_drop_Suc [symmetric])
  have "insert_scan arr d (Suc n) = butlast arr @ [d, last arr]"
    using assms(2) l t d by simp
  then show ?thesis
    using assms(2) n l by (simp add: insertSampleInOrder_def)
qed

text \<open>
  C7. The claim: inserting a sample into a text track whose pts values are in
  non-decreasing order leaves the track in non-decreasing pts order. On the code the
  track with pts 1, 2, 5 receives the sample with pts 0 in front of its last element:
  the result has pts 1, 2, 0, 5 and is not sorted.
\<close>

theorem insertSampleInOrder_breaks_order:
  "sorted (map c_pts [cea 1, cea 2, cea 5]) \<and>
   map c_pts (insertSampleInOrder [cea 1, cea 2, cea 5] (cea 0)) = [1, 2, 0, 5] \<and>
   \<not> sorted (map c_pts (insertSampleInOrder [cea 1, cea 2, cea 5] (cea 0)))"
  by (simp add: insertSampleInOrder_def cea_def numeral_3_eq_3)

section \<open>Properties: Emulation-prevention bytes: \<open>discardEPB\<close>\<close>

lemma epb_at_gap:
  "epb_at f data a \<Longrightarrow> epb_at f data b \<Longrightarrow> a < b \<Longrightarrow> a + 3 \<le> b"
proof (rule ccontr)
  assume a: "epb_at f data a" and b: "epb_at f data b" and l: "a < b" and n: "\<not> a + 3 \<le> b"
  then consider "b = a + 1" | "b = a + 2" by linarith
  then show False
  proof cases
    case 1
    then have "data ! (b - 1) = data ! a" by simp
    with a b show False by (simp add: epb_at_def)
  next
    case 2
    then have "data ! (b - 2) = data ! a" by simp
    with a b show False by (simp add: epb_at_def)
  qed
qed

lemma find_EPBPositions_eq:
  "1 \<le> i \<Longrightarrow>
   find_EPBPositions data i acc = acc @ filter (epb_at 1 data) [i + 2..<length data]"
proof (induction data i acc rule: find_EPBPositions.induct)
  case (1 data i acc)
  show ?case
  proof (cases "i + 2 < length data")
    case False
    then show ?thesis by (subst find_EPBPositions.simps) simp
  next
    case True
    then have u: "[i + 2..<length data] = (i + 2) # [i + 3..<length data]"
      by (subst upt_rec) (simp add: eval_nat_numeral)
    show ?thesis
    proof (cases "data ! i = 0 \<and> data ! (i + 1) = 0 \<and> data ! (i + 2) = 3")
      case t: True
      then have e: "epb_at 1 data (i + 2)"
        using True "1.prems" by (simp add: epb_at_def)
      have n: "\<not> epb_at 1 data (i + 3)"
        using t by (simp add: epb_at_def numeral_3_eq_3)
      have "[i + 3..<length data] = (if i + 3 < length data then (i + 3) # [i + 4..<length data] else [])"
        by (subst upt_rec) (simp add: eval_nat_numeral)
      then have f: "filter (epb_at 1 data) [i + 3..<length data]
          = filter (epb_at 1 data) [i + 2 + 2..<length data]"
        using n by (simp add: eval_nat_numeral)
      have "find_EPBPositions data i acc = find_EPBPositions data (i + 2) (acc @ [i + 2])"
        by (subst find_EPBPositions.simps) (use True t in simp)
      also have "\<dots> = (acc @ [i + 2]) @ filter (epb_at 1 data) [i + 2 + 2..<length data]"
        using "1.IH"(1) True t "1.prems" by simp
      finally show ?thesis using u e f by simp
    next
      case f: False
      then have n: "\<not> epb_at 1 data (i + 2)"
        by (auto simp: epb_at_def)
      have "find_EPBPositions data i acc = find_EPBPositions data (i + 1) acc"
        by (subst find_EPBPositions.simps) (use True f in auto)
      also have "\<dots> = acc @ filter (epb_at 1 data) [i + 1 + 2..<length data]"
        using "1.IH"(2) True f "1.prems" by simp
      finally show ?thesis using u n by (simp add: eval_nat_numeral)
    qed
  qed
qed

lemma copy_skipping_eq:
  assumes "sorted_wrt (\<lambda>a b. a + 2 \<le> b) ps"
    and "\<forall>p\<in>set ps. si \<le> p \<and> p < length data"
    and "length nd = newLength"
    and "si \<le> length data"
    and "(newLength - i) + length ps = length data - si"
    and "i \<le> newLength"
  shows "copy_skipping data newLength i si ps nd
    = take i nd @ map (\<lambda>k. data ! k) (filter (\<lambda>k. k \<notin> set ps) [si..<length data])"
  using assms
proof (induction data newLength i si ps nd rule: copy_skipping.induct)
  case (1 data newLength i si ps nd)
  show ?case
  proof (cases "i < newLength")
    case False
    then have i: "i = newLength" using "1.prems"(6) by simp
    then have l: "length ps = length data - si" using "1.prems"(5) by simp
    have d: "distinct ps"
      using "1.prems"(1) by (induction ps) auto
    have "set ps \<subseteq> {si..<length data}"
      using "1.prems"(2) by auto
    moreover have "card (set ps) = card {si..<length data}"
      using d l by (simp add: distinct_card)
    ultimately have "set ps = {si..<length data}"
      by (simp add: card_subset_eq)
    then have "filter (\<lambda>k. k \<notin> set ps) [si..<length data] = []"
      by (simp add: filter_empty_conv)
    moreover have "copy_skipping data newLength i si ps nd = nd"
      by (subst copy_skipping.simps) (use False in simp)
    ultimately show ?thesis
      using i "1.prems"(3) by simp
  next
    case True
    then have si: "si < length data" using "1.prems"(5) by linarith
    have u: "[si..<length data] = si # [Suc si..<length data]"
      using si by (simp add: upt_conv_Cons)
    have tk: "\<And>x. take (Suc i) (nd[i := x]) = take i nd @ [x]"
      using True "1.prems"(3) by (simp add: take_Suc_conv_app_nth)
    show ?thesis
    proof (cases "ps \<noteq> [] \<and> si = hd ps")
      case t: True
      then obtain rest where ps: "ps = si # rest" by (cases ps) auto
      have r: "\<forall>p\<in>set rest. si + 2 \<le> p \<and> p < length data"
        using "1.prems"(1,2) ps by auto
      have s2: "Suc si < length data"
        using True "1.prems"(5) ps by simp
      have u2: "[Suc si..<length data] = Suc si # [si + 2..<length data]"
        using s2 by (simp add: upt_conv_Cons)
      have nin: "Suc si \<notin> set ps" using r ps by auto
      have f: "filter (\<lambda>k. k \<notin> set ps) [si + 2..<length data]
             = filter (\<lambda>k. k \<notin> set rest) [si + 2..<length data]"
        using ps by (auto intro: filter_cong)
      have "copy_skipping data newLength i si ps nd
          = copy_skipping data newLength (i + 1) (si + 2) (tl ps) (nd[i := byte0 data (si + 1)])"
        by (subst copy_skipping.simps) (use True t in simp)
      also have "\<dots> = take (i + 1) (nd[i := byte0 data (si + 1)]) @
          map (\<lambda>k. data ! k) (filter (\<lambda>k. k \<notin> set (tl ps)) [si + 2..<length data])"
        using True t ps r s2 "1.prems" by (intro "1.IH"(1)) auto
      finally show ?thesis
        using u u2 nin ps f tk s2 by (simp add: byte0_def)
    next
      case f: False
      have nin: "si \<notin> set ps"
      proof (cases ps)
        case Nil then show ?thesis by simp
      next
        case (Cons p rest)
        then have "si < p" using f "1.prems"(2) by (simp add: le_neq_implies_less)
        moreover have "\<forall>q\<in>set rest. p < q" using "1.prems"(1) Cons by auto
        ultimately show ?thesis using Cons by auto
      qed
      have p2: "\<forall>p\<in>set ps. si + 1 \<le> p \<and> p < length data"
        using nin "1.prems"(2) by (metis Suc_eq_plus1 Suc_leI le_neq_implies_less)
      have "copy_skipping data newLength i si ps nd
          = copy_skipping data newLength (i + 1) (si + 1) ps (nd[i := byte0 data si])"
        by (subst copy_skipping.simps) (use True f in auto)
      also have "\<dots> = take (i + 1) (nd[i := byte0 data si]) @
          map (\<lambda>k. data ! k) (filter (\<lambda>k. k \<notin> set ps) [si + 1..<length data])"
        using True f p2 si "1.prems" by (intro "1.IH"(2)) auto
      finally show ?thesis
        using u nin tk si by (simp add: byte0_def)
    qed
  qed
qed

lemma without_nothing: "(\<forall>k < length xs. \<not> P k) \<Longrightarrow> without P xs = xs"
proof -
  assume a: "\<forall>k < length xs. \<not> P k"
  then have "filter (\<lambda>k. \<not> P k) [0..<length xs] = [0..<length xs]"
    by (simp add: filter_id_conv)
  then show ?thesis
    by (simp add: without_def map_nth)
qed

lemma EPBPositions_eq:
  "find_EPBPositions data 1 [] = filter (epb_at 1 data) [0..<length data]"
proof -
  have "[0..<length data] = [0..<min 3 (length data)] @ [3..<length data]"
    by (metis le_add2 le_add_same_cancel2 min.cobounded2 min_def upt_add_eq_append
        le_add_diff_inverse nat_le_linear upt_conv_Nil append_Nil2 min.absorb2 order_refl)
  moreover have "filter (epb_at 1 data) [0..<min 3 (length data)] = []"
    by (auto simp: filter_empty_conv epb_at_def)
  ultimately have "filter (epb_at 1 data) [0..<length data] = filter (epb_at 1 data) [3..<length data]"
    by (metis append_Nil filter_append)
  then show ?thesis
    using find_EPBPositions_eq [of 1 data "[]"] by (simp add: eval_nat_numeral)
qed

text \<open>
  C6 (as amended). \<open>discardEPB\<close> removes exactly the 0x03 byte of every
  0x00 0x00 0x03 triple that begins at offset 1 or later, and keeps every other byte
  unchanged and in order; it is the identity when the input has no such triple. A triple
  that begins at offset 0 is outside the scan and stays in place.
\<close>

theorem discardEPB_strips_from_offset_1:
  "discardEPB data = without (epb_at 1 data) data \<and>
   ((\<forall>k. \<not> epb_at 1 data k) \<longrightarrow> discardEPB data = data)"
proof -
  let ?ps = "filter (epb_at 1 data) [0..<length data]"
  have eq: "discardEPB data = without (epb_at 1 data) data"
  proof (cases "?ps = []")
    case True
    then have "\<forall>k < length data. \<not> epb_at 1 data k"
      by (simp add: filter_empty_conv)
    then have "without (epb_at 1 data) data = data"
      by (simp add: without_nothing)
    moreover have "discardEPB data = data"
      unfolding discardEPB_def EPBPositions_eq using True by simp
    ultimately show ?thesis by simp
  next
    case False
    have "sorted_wrt (<) ?ps"
      by (rule sorted_wrt_filter) simp
    then have g: "sorted_wrt (\<lambda>a b. a + 2 \<le> b) ?ps"
      by (rule sorted_wrt_mono_rel [rotated]) (use epb_at_gap in force)
    have l: "length ?ps \<le> length data"
      using length_filter_le [of "epb_at 1 data" "[0..<length data]"] by simp
    have "copy_skipping data (length data - length ?ps) 0 0 ?ps
            (replicate (length data - length ?ps) 0)
        = take 0 (replicate (length data - length ?ps) 0) @
          map (\<lambda>k. data ! k) (filter (\<lambda>k. k \<notin> set ?ps) [0..<length data])"
      using g l by (intro copy_skipping_eq) auto
    moreover have "filter (\<lambda>k. k \<notin> set ?ps) [0..<length data]
        = filter (\<lambda>k. \<not> epb_at 1 data k) [0..<length data]"
      by (auto intro: filter_cong)
    ultimately have "copy_skipping data (length data - length ?ps) 0 0 ?ps
            (replicate (length data - length ?ps) 0) = without (epb_at 1 data) data"
      by (simp add: without_def)
    then show ?thesis
      unfolding discardEPB_def EPBPositions_eq using False by (simp add: Let_def)
  qed
  moreover have "(\<forall>k. \<not> epb_at 1 data k) \<longrightarrow> without (epb_at 1 data) data = data"
    by (simp add: without_nothing)
  ultimately show ?thesis by simp
qed

text \<open>
  The amended statement at two inputs: a unit with two triples after its header byte, and
  a buffer whose only triple is at offset 0 (no triple from offset 1 on, so the identity
  case applies).
\<close>

theorem discardEPB_strips_witness:
  "discardEPB [7, 0, 0, 3, 1, 0, 0, 3] = [7, 0, 0, 1, 0, 0] \<and>
   (\<forall>k. \<not> epb_at 1 [0, 0, 3, 1] k) \<and> discardEPB [0, 0, 3, 1] = [0, 0, 3, 1]"
proof -
  have n: "\<forall>k. \<not> epb_at 1 [0, 0, 3, 1] k"
    by (auto simp: epb_at_def)
  have "[0..<8] = [0, 1, 2, 3, 4, 5, 6, 7::nat]"
    by (simp add: upt_rec)
  then have "without (epb_at 1 [7, 0, 0, 3, 1, 0, 0, 3]) [7, 0, 0, 3, 1, 0, 0, 3 :: byte]
      = [7, 0, 0, 1, 0, 0]"
    by (simp add: without_def epb_at_def)
  then have a: "discardEPB [7, 0, 0, 3, 1, 0, 0, 3] = [7, 0, 0, 1, 0, 0]"
    using discardEPB_strips_from_offset_1 [of "[7, 0, 0, 3, 1, 0, 0, 3]"] by simp
  have b: "discardEPB [0, 0, 3, 1] = [0, 0, 3, 1]"
    using n discardEPB_strips_from_offset_1 [of "[0, 0, 3, 1]"] by blast
  show ?thesis
    using a b n by blast
qed

text \<open>
  C6 as stated fails on a triple that begins at offset 0: index 2 of \<open>00 00 03 01\<close> is
  a 0x03 after two zero bytes, the claim's result is \<open>00 00 01\<close>, and the code returns
  the input unchanged.
\<close>

theorem discardEPB_keeps_leading_triple:
  "epb_at 0 [0, 0, 3, 1] 2 \<and> without (epb_at 0 [0, 0, 3, 1]) [0, 0, 3, 1 :: byte] = [0, 0, 1] \<and>
   discardEPB [0, 0, 3, 1] = [0, 0, 3, 1]"
  by code_simp

section \<open>Properties: PES reassembly: \<open>_parsePES\<close>\<close>

lemma merge_head_concat: "concat (merge_head d) = concat d"
  by (induction d rule: merge_head.induct) auto

lemma merge_head_hd:
  "d \<noteq> [] \<Longrightarrow>
   merge_head d \<noteq> [] \<and>
   (hd (merge_head d) = concat d \<or>
    19 \<le> length (hd (merge_head d)) \<and> (\<exists>k. hd (merge_head d) = take k (concat d)))"
proof (induction d rule: merge_head.induct)
  case (1 a b rest)
  show ?case
  proof (cases "length a < 19")
    case True
    then show ?thesis using 1 by simp
  next
    case False
    have "a = take (length a) (concat (a # b # rest))" by simp
    then show ?thesis using False by (metis merge_head.simps(1) list.sel(1) list.distinct(1) not_less)
  qed
qed auto

lemma merge_head_byte0:
  assumes "d \<noteq> []" and "i < 19"
  shows "byte0 (hd (merge_head d)) i = byte0 (concat d) i"
proof -
  from merge_head_hd [OF assms(1)]
  consider "hd (merge_head d) = concat d"
    | k where "19 \<le> length (hd (merge_head d))" "hd (merge_head d) = take k (concat d)"
    by blast
  then show ?thesis
  proof cases
    case 1 then show ?thesis by simp
  next
    case 2
    then have "i < k" "i < length (concat d)" using assms(2) by auto
    then show ?thesis using 2 assms(2) by (simp add: byte0_def)
  qed
qed

lemma merge_head_nth:
  assumes "d \<noteq> []" and "i < 19" and "i < length (concat d)"
  shows "byte0 (hd (merge_head d)) i = concat d ! i"
  using merge_head_byte0 [OF assms(1,2)] assms(3) by (simp add: byte0_def)

lemma merge_head_length:
  assumes "d \<noteq> []" and "n \<le> 19"
  shows "(length (hd (merge_head d)) < n) = (length (concat d) < n)"
proof -
  from merge_head_hd [OF assms(1)]
  consider "hd (merge_head d) = concat d"
    | k where "19 \<le> length (hd (merge_head d))" "hd (merge_head d) = take k (concat d)"
    by blast
  then show ?thesis
  proof cases
    case 1 then show ?thesis by simp
  next
    case 2
    then have "19 \<le> length (concat d)" by (metis length_take min.bounded_iff)
    then show ?thesis using 2 assms(2) by simp
  qed
qed

lemma reassemble_concat:
  "pso \<le> length (concat frags) \<Longrightarrow>
   i + (length (concat frags) - pso) \<le> length pd \<Longrightarrow>
   reassemble frags pso i pd =
     Inr (take i pd @ drop pso (concat frags) @ drop (i + (length (concat frags) - pso)) pd)"
proof (induction frags arbitrary: pso i pd)
  case Nil
  then show ?case by simp
next
  case (Cons frag rest)
  show ?case
  proof (cases "pso \<noteq> 0 \<and> pso > length frag")
    case True
    then have "reassemble rest (pso - length frag) i pd =
        Inr (take i pd @ drop (pso - length frag) (concat rest) @
             drop (i + (length (concat rest) - (pso - length frag))) pd)"
      using Cons.prems by (intro Cons.IH) auto
    moreover have "length (concat rest) - (pso - length frag)
        = length (concat (frag # rest)) - pso"
      using True by simp
    ultimately show ?thesis using True by (simp add: Let_def)
  next
    case False
    then have le: "pso \<le> length frag" by auto
    let ?pd = "take i pd @ drop pso frag @ drop (i + (length frag - pso)) pd"
    have fit: "i + (length frag - pso) \<le> length pd" using Cons.prems le by simp
    have len: "length ?pd = length pd" using fit by simp
    have "reassemble rest 0 (i + (length frag - pso)) ?pd =
       Inr (take (i + (length frag - pso)) ?pd @ drop 0 (concat rest) @
            drop (i + (length frag - pso) + (length (concat rest) - 0)) ?pd)"
      using Cons.prems le len by (intro Cons.IH) auto
    moreover have "take (i + (length frag - pso)) ?pd = take i pd @ drop pso frag"
      using fit by simp
    moreover have "drop (i + (length frag - pso) + length (concat rest)) ?pd
        = drop (i + (length frag + length (concat rest) - pso)) pd"
      using fit le by (simp add: add.commute add.left_commute)
    ultimately show ?thesis using False fit le by (simp add: Let_def)
  qed
qed

lemma reassemble_whole:
  assumes "pso \<le> length (concat frags)"
  shows "reassemble frags pso 0 (replicate (length (concat frags) - pso) 0)
         = Inr (drop pso (concat frags))"
  using reassemble_concat [of pso frags 0 "replicate (length (concat frags) - pso) 0"] assms
  by simp

lemma merge_head_length_le:
  assumes "d \<noteq> []" and "n < 19"
  shows "(length (hd (merge_head d)) \<le> n) = (length (concat d) \<le> n)"
  using merge_head_length [OF assms(1), of "Suc n"] assms(2) by (simp add: less_Suc_eq_le)

lemma merge_head_length_gt:
  assumes "d \<noteq> []" and "n < 19"
  shows "(n < length (hd (merge_head d))) = (n < length (concat d))"
  using merge_head_length_le [OF assms] by (simp add: not_le [symmetric])

lemma reassemble_same:
  assumes "concat frags = w" and "0 \<le> pso" and "\<not> int (length w) - pso < 0"
  shows "reassemble frags (nat pso) 0 (replicate (nat (int (length w) - pso)) 0)
         = Inr (drop (nat pso) w)"
proof -
  have "nat pso \<le> length (concat frags)" using assms by simp
  moreover have "nat (int (length w) - pso) = length (concat frags) - nat pso"
    using assms by (simp add: nat_diff_distrib')
  ultimately show ?thesis using reassemble_whole [of "nat pso" frags] assms(1) by simp
qed

lemma prefix_value_iff:
  fixes a b c :: byte
  shows "(uint a * 65536 + uint b * 256 + uint c = 1) = (a = 0 \<and> b = 0 \<and> c = 1)"
proof
  assume e: "uint a * 65536 + uint b * 256 + uint c = 1"
  have n: "0 \<le> uint a" "0 \<le> uint b" "0 \<le> uint c" by simp_all
  have "\<not> 1 \<le> uint a" using e n by linarith
  then have a: "uint a = 0" using n by linarith
  have "\<not> 1 \<le> uint b" using e n a by linarith
  then have b: "uint b = 0" using n by linarith
  have c: "uint c = 1" using e a b by simp
  have "a = 0" "b = 0" "c = 1"
    using a b c by (auto intro: word_uint_eqI)
  then show "a = 0 \<and> b = 0 \<and> c = 1" by simp
next
  assume "a = 0 \<and> b = 0 \<and> c = 1"
  then show "uint a * 65536 + uint b * 256 + uint c = 1" by simp
qed

lemma parsePES_prefix_test:
  assumes "d \<noteq> []"
  shows "(\<not> length (hd (merge_head d)) < 3 \<and>
          uint (byte0 (hd (merge_head d)) 0) * 65536 + uint (byte0 (hd (merge_head d)) 1) * 256 +
          uint (byte0 (hd (merge_head d)) 2) = 1) = start_code_prefix (concat d)"
proof -
  have "(\<not> length (hd (merge_head d)) < 3 \<and>
          uint (byte0 (hd (merge_head d)) 0) * 65536 + uint (byte0 (hd (merge_head d)) 1) * 256 +
          uint (byte0 (hd (merge_head d)) 2) = 1)
      = (\<not> length (concat d) < 3 \<and> byte0 (concat d) 0 = 0 \<and> byte0 (concat d) 1 = 0 \<and>
         byte0 (concat d) 2 = 1)"
    using assms by (simp add: prefix_value_iff merge_head_byte0 merge_head_length)
  also have "\<dots> = start_code_prefix (concat d)"
  proof (cases "length (concat d) < 3")
    case True
    then show ?thesis by (simp add: start_code_prefix_def)
  next
    case False
    then have "0 < length (concat d)" "1 < length (concat d)" "2 < length (concat d)"
      by linarith+
    then show ?thesis
      unfolding start_code_prefix_def byte0_def using False by (simp del: length_concat length_greater_0_conv)
  qed
  finally show ?thesis .
qed

lemma parsePES_bad_prefix:
  assumes "s_size st \<noteq> 0" and "s_data st \<noteq> []"
    and "\<not> start_code_prefix (concat (s_data st))"
  shows "parsePES st = Inr None"
proof -
  let ?h = "hd (merge_head (s_data st))"
  from assms(3) parsePES_prefix_test [OF assms(2)]
  consider "length ?h < 3"
    | "\<not> length ?h < 3"
      "uint (byte0 ?h 0) * 65536 + uint (byte0 ?h 1) * 256 + uint (byte0 ?h 2) \<noteq> 1"
    by blast
  then show ?thesis
  proof cases
    case 1
    then show ?thesis using assms(1,2) by (simp add: parsePES_def Let_def)
  next
    case 2
    then show ?thesis using assms(1,2) by (simp add: parsePES_def Let_def)
  qed
qed

lemma parsePES_truncated:
  assumes "s_size st \<noteq> 0" and "s_data st \<noteq> []"
    and "start_code_prefix (concat (s_data st))"
    and "6 \<le> length (concat (s_data st))"
    and "pes_length_field (concat (s_data st)) \<noteq> 0"
    and "pes_length_field (concat (s_data st)) > s_size st - 6"
  shows "parsePES st = Inr None"
proof -
  let ?h = "hd (merge_head (s_data st))"
  have "5 < length ?h"
    using assms(2,4) by (simp add: merge_head_length_gt)
  moreover have "uint (byte0 ?h 4) * 256 + uint (byte0 ?h 5) = pes_length_field (concat (s_data st))"
    using assms(2,4) by (simp add: merge_head_nth pes_length_field_def)
  moreover have "\<not> length ?h < 3"
    "uint (byte0 ?h 0) * 65536 + uint (byte0 ?h 1) * 256 + uint (byte0 ?h 2) = 1"
    using parsePES_prefix_test [OF assms(2)] assms(3) by simp_all
  ultimately show ?thesis
    using assms(1,2,5,6) by (simp add: parsePES_def Let_def)
qed

lemma parsePES_complete:
  assumes "s_size st = int (length w)" and "s_data st \<noteq> []" and "w = concat (s_data st)"
    and "start_code_prefix w"
    and "9 \<le> length w"
    and "pes_length_field w = 0 \<or> pes_length_field w \<le> s_size st - 6"
    and "9 + unat (w ! 8) \<le> length w"
  shows "parsePES st = Inr (Some \<lparr>pes_data = drop (9 + unat (w ! 8)) w,
           pes_pts = fst (pes_timestamps w), pes_dts = snd (pes_timestamps w),
           pes_len = (if pes_length_field w \<noteq> 0
                      then pes_length_field w - (uint (w ! 8) + 3) else 0)\<rparr>)"
proof -
  let ?d = "s_data st"
  let ?h = "hd (merge_head ?d)"
  have d: "?d \<noteq> []" by (rule assms(2))
  have l: "uint (byte0 ?h 4) * 256 + uint (byte0 ?h 5) = pes_length_field w"
    using d assms(3,5) by (simp add: merge_head_nth pes_length_field_def)
  have h8: "byte0 ?h 8 = w ! 8"
    using d assms(3,5) by (simp add: merge_head_nth)
  have len: "\<not> length ?h \<le> 8" "5 < length ?h"
    using d assms(3,5) by (simp_all add: merge_head_length_le merge_head_length_gt)
  have rt: "read_timestamp ?h 9 = read_timestamp w 9" "read_timestamp ?h 14 = read_timestamp w 14"
    using d assms(3) by (simp_all add: read_timestamp_def merge_head_byte0)
  have ts: "pes_timestamps ?h = pes_timestamps w"
    using d assms(3) rt by (simp add: pes_timestamps_def merge_head_byte0 Let_def)
  have n: "nat (uint (w ! 8) + 9) = 9 + unat (w ! 8)"
    by (simp add: nat_add_distrib)
  have sz: "\<not> s_size st - (uint (w ! 8) + 9) < 0"
    using assms(1,7) n by linarith
  have "reassemble (merge_head ?d) (nat (uint (w ! 8) + 9)) 0
          (replicate (nat (int (length w) - (uint (w ! 8) + 9))) 0)
        = Inr (drop (nat (uint (w ! 8) + 9)) w)"
    using sz assms(1,3) by (intro reassemble_same) (simp_all add: merge_head_concat)
  then have re: "reassemble (merge_head ?d) (nat (uint (w ! 8) + 9)) 0
          (replicate (nat (s_size st - (uint (w ! 8) + 9))) 0)
        = Inr (drop (9 + unat (w ! 8)) w)"
    using assms(1) n by simp
  have p: "\<not> length ?h < 3" "uint (byte0 ?h 0) * 65536 + uint (byte0 ?h 1) * 256 +
          uint (byte0 ?h 2) = 1"
    using parsePES_prefix_test [OF d] assms(3,4) by simp_all
  have nt: "\<not> (pes_length_field w \<noteq> 0 \<and> pes_length_field w > s_size st - 6)"
    using assms(6) by linarith
  have "0 < length w" using assms(5) by linarith
  then have s0: "s_size st \<noteq> 0" using assms(1) by linarith
  show ?thesis
    unfolding parsePES_def Let_def
    using s0 d p l h8 len ts sz re nt
    by (simp add: split_beta del: reassemble.simps)
qed

lemma int_and_even: "(k::int) AND 254 = 2 * ((k div 2) AND 127)"
  by (subst and_int_unfold) simp

lemma int_and_0E: "(k::int) AND 14 = 2 * ((k div 2) AND 7)"
  by (subst and_int_unfold) simp

lemma m127: "(k::int) AND 127 = k mod 128"
  using take_bit_eq_mask [of 7 k] take_bit_eq_mod [of 7 k] by (simp add: mask_eq_exp_minus_1)

lemma m7: "(k::int) AND 7 = k mod 8"
  using take_bit_eq_mask [of 3 k] take_bit_eq_mod [of 3 k] by (simp add: mask_eq_exp_minus_1)

lemma m255: "(k::int) AND 255 = k mod 256"
  using take_bit_eq_mask [of 8 k] take_bit_eq_mod [of 8 k] by (simp add: mask_eq_exp_minus_1)

lemma and_FE: "uint ((w::byte) AND 0xFE) = 2 * (uint w div 2 mod 128)"
  by (simp add: uint_and int_and_even m127)

lemma and_0E: "uint ((w::byte) AND 0x0E) = 2 * (uint w div 2 mod 8)"
  by (simp add: uint_and int_and_0E m7)

lemma and_FF: "uint ((w::byte) AND 0xFF) = uint w"
  using uint_lt2p [of w] by (simp add: uint_and m255)

lemma uint_byte_of_nat: "n < 256 \<Longrightarrow> uint (of_nat n :: byte) = int n"
  by (simp add: uint_nat unat_of_nat)

lemma split33:
  fixes p :: nat
  assumes "p < 8589934592"
  shows "(p div 1073741824 mod 8) * 1073741824 + (p div 4194304 mod 256) * 4194304 +
         (p div 32768 mod 128) * 32768 + (p div 128 mod 256) * 128 + p mod 128 = p"
proof -
  have a: "p div 1073741824 mod 8 = p div 1073741824"
    using assms by (simp add: less_mult_imp_div_less)
  have 1: "p = (p div 128) * 128 + p mod 128"
    by simp
  have 2: "p div 128 = (p div 32768) * 256 + p div 128 mod 256"
    using div_mult2_eq [of p 128 256] by simp
  have 3: "p div 32768 = (p div 4194304) * 128 + p div 32768 mod 128"
    using div_mult2_eq [of p 32768 128] by simp
  have 4: "p div 4194304 = (p div 1073741824) * 256 + p div 4194304 mod 256"
    using div_mult2_eq [of p 4194304 256] by simp
  show ?thesis
    using a 1 2 3 4 by linarith
qed

lemma and_0E_marked:
  fixes pre a :: nat
  assumes "pre < 16" "a < 8"
  shows "uint ((of_nat (16 * pre + 2 * a + 1) :: byte) AND 0x0E) = 2 * int a"
proof -
  have "16 * pre + 2 * a + 1 < 256" using assms by simp
  then have "uint (of_nat (16 * pre + 2 * a + 1) :: byte) = int (16 * pre + 2 * a + 1)"
    by (rule uint_byte_of_nat)
  moreover have "(16 * pre + 2 * a + 1) div 2 = 8 * pre + a"
    by linarith
  then have "(16 * pre + 2 * a + 1) div 2 mod 8 = a"
    using assms(2) by simp
  then have "int ((16 * pre + 2 * a + 1) div 2 mod 8) = int a"
    by (rule arg_cong)
  then have "int (16 * pre + 2 * a + 1) div 2 mod 8 = int a"
    by (simp only: zmod_int zdiv_int of_nat_numeral)
  ultimately show ?thesis
    by (simp only: and_0E)
qed

lemma and_FE_marked:
  fixes c :: nat
  assumes "c < 128"
  shows "uint ((of_nat (2 * c + 1) :: byte) AND 0xFE) = 2 * int c"
proof -
  have "2 * c + 1 < 256" using assms by simp
  then have "uint (of_nat (2 * c + 1) :: byte) = int (2 * c + 1)"
    by (rule uint_byte_of_nat)
  moreover have "(2 * c + 1) div 2 = c"
    by linarith
  then have "(2 * c + 1) div 2 mod 128 = c"
    using assms by simp
  then have "int ((2 * c + 1) div 2 mod 128) = int c"
    by (rule arg_cong)
  then have "int (2 * c + 1) div 2 mod 128 = int c"
    by (simp only: zmod_int zdiv_int of_nat_numeral)
  ultimately show ?thesis
    by (simp only: and_FE)
qed

lemma and_FF_plain:
  fixes b :: nat
  assumes "b < 256"
  shows "uint ((of_nat b :: byte) AND 0xFF) = int b"
  using assms by (simp only: and_FF uint_byte_of_nat)

lemma timestamp_bytes_field:
  assumes "p < 8589934592" and "pre < 16" and "k + 5 \<le> length frag"
    and "take 5 (drop k frag) = pts_field pre p"
  shows "uint (byte0 frag k AND 0x0E) * 536870912 +
         uint (byte0 frag (k + 1) AND 0xFF) * 4194304 +
         uint (byte0 frag (k + 2) AND 0xFE) * 16384 +
         uint (byte0 frag (k + 3) AND 0xFF) * 128 +
         uint (byte0 frag (k + 4) AND 0xFE) div 2 = int p"
proof -
  have nth: "\<And>j. j < 5 \<Longrightarrow> byte0 frag (k + j) = pts_field pre p ! j"
  proof -
    fix j :: nat
    assume j: "j < 5"
    then have "take 5 (drop k frag) ! j = frag ! (k + j)"
      using assms(3) by simp
    then show "byte0 frag (k + j) = pts_field pre p ! j"
      using assms(3,4) j by (simp add: byte0_def)
  qed
  let ?a = "p div 1073741824 mod 8" and ?b = "p div 4194304 mod 256"
  let ?c = "p div 32768 mod 128" and ?d = "p div 128 mod 256" and ?e = "p mod 128"
  have b0: "byte0 frag k = of_nat (16 * pre + 2 * ?a + 1)"
    using nth [of 0] by (simp add: pts_field_def)
  have b1: "byte0 frag (k + 1) = of_nat ?b"
    using nth [of 1] by (simp add: pts_field_def)
  have b2: "byte0 frag (k + 2) = of_nat (2 * ?c + 1)"
    using nth [of 2] by (simp add: pts_field_def)
  have b3: "byte0 frag (k + 3) = of_nat ?d"
    using nth [of 3] by (simp add: pts_field_def)
  have b4: "byte0 frag (k + 4) = of_nat (2 * ?e + 1)"
    using nth [of 4] by (simp add: pts_field_def)
  have u0: "uint (byte0 frag k AND 0x0E) = 2 * int ?a"
    unfolding b0 by (rule and_0E_marked) (use assms(2) in simp_all)
  have u1: "uint (byte0 frag (k + 1) AND 0xFF) = int ?b"
    unfolding b1 by (rule and_FF_plain) simp
  have u2: "uint (byte0 frag (k + 2) AND 0xFE) = 2 * int ?c"
    unfolding b2 by (rule and_FE_marked) simp
  have u3: "uint (byte0 frag (k + 3) AND 0xFF) = int ?d"
    unfolding b3 by (rule and_FF_plain) simp
  have u4: "uint (byte0 frag (k + 4) AND 0xFE) = 2 * int ?e"
    unfolding b4 by (rule and_FE_marked) simp
  have "int (?a * 1073741824 + ?b * 4194304 + ?c * 32768 + ?d * 128 + ?e) = int p"
    using split33 [OF assms(1)] by (rule arg_cong)
  then have s: "2 * int ?a * 536870912 + int ?b * 4194304 + 2 * int ?c * 16384 + int ?d * 128 +
      (2 * int ?e) div 2 = int p"
    by simp
  show ?thesis
    unfolding u0 u1 u2 u3 u4 s by simp
qed

lemma read_timestamp_field:
  assumes "p < 8589934592" and "pre < 16" and "k + 5 \<le> length frag"
    and "take 5 (drop k frag) = pts_field pre p"
  shows "read_timestamp frag k = (if p \<le> 4294967295 then int p else int p - 8589934592)"
  unfolding read_timestamp_def Let_def timestamp_bytes_field [OF assms] by simp

lemma pts_formula_bytes:
  assumes "14 \<le> length w"
  shows "pts_formula w = uint (byte0 w 9 AND 0x0E) * 536870912 +
      uint (byte0 w (9 + 1) AND 0xFF) * 4194304 + uint (byte0 w (9 + 2) AND 0xFE) * 16384 +
      uint (byte0 w (9 + 3) AND 0xFF) * 128 + uint (byte0 w (9 + 4) AND 0xFE) div 2"
proof -
  have "2 ^ 29 = (536870912::int)" "2 ^ 22 = (4194304::int)" "2 ^ 14 = (16384::int)"
    "2 ^ 7 = (128::int)"
    by simp_all
  then show ?thesis
    using assms unfolding pts_formula_def byte0_def and_FF by simp
qed

text \<open>
  C3 (as amended). Let the accumulator hold a PES header in the standard marker layout
  as its first bytes: start-code prefix 0x000001, a timestamp flag set
  (\<open>b[7] & 0xC0 \<noteq> 0\<close>), the 33-bit value \<open>p\<close> in bytes 9..13 and, when the DTS flag
  0x40 is set, a 33-bit value \<open>d\<close> in bytes 14..18. Let \<open>size\<close> be the number of
  accumulated bytes, let these be at least 14 (19 with the DTS flag) and at least
  \<open>9 + b[8]\<close>, and let the PES length field be 0 or at most \<open>size - 6\<close>. Then
  \<open>_parsePES\<close> returns a record; its \<open>pts\<close> is the wrapped \<open>p\<close> (\<open>p\<close> when
  \<open>p \<le> 2^32 - 1\<close>, \<open>p - 2^33\<close> otherwise), unless the DTS flag is set and the wrapped
  \<open>p\<close> exceeds the wrapped \<open>d\<close> by more than \<open>60 * 90000\<close>: then its \<open>pts\<close> is the
  wrapped \<open>d\<close>. Its \<open>dts\<close> is the wrapped \<open>d\<close> with the DTS flag and the wrapped \<open>p\<close>
  without. The formula of the specification, evaluated on the header, is \<open>p\<close> itself.
\<close>

theorem parsePES_pts_roundtrip:
  assumes "p < 8589934592" and "pre < 16"
    and "s_data st \<noteq> []" and "w = concat (s_data st)" and "s_size st = int (length w)"
    and "start_code_prefix w" and "14 \<le> length w"
    and "pes_length_field w = 0 \<or> pes_length_field w \<le> s_size st - 6"
    and "9 + unat (w ! 8) \<le> length w"
    and "w ! 7 AND 0xC0 \<noteq> 0"
    and "take 5 (drop 9 w) = pts_field pre p"
    and "w ! 7 AND 0x40 \<noteq> 0 \<longrightarrow>
         d < 8589934592 \<and> pre' < 16 \<and> 19 \<le> length w \<and> take 5 (drop 14 w) = pts_field pre' d"
  shows "(\<exists>r. parsePES st = Inr (Some r) \<and>
           pes_pts r = Some (if w ! 7 AND 0x40 \<noteq> 0 \<and> wrap33 p - wrap33 d > 60 * 90000
                             then wrap33 d else wrap33 p) \<and>
           pes_dts r = Some (if w ! 7 AND 0x40 \<noteq> 0 then wrap33 d else wrap33 p)) \<and>
         pts_formula w = int p"
proof -
  have pf: "pts_formula w = int p"
    unfolding pts_formula_bytes [OF assms(7)]
    using assms(1,2,7,11) by (intro timestamp_bytes_field [of p pre 9 w]) simp_all
  have rt: "read_timestamp w 9 = wrap33 p"
    unfolding wrap33_def
    using assms(1,2,7,11) by (intro read_timestamp_field [of p pre 9 w]) simp_all
  have f: "byte0 w 7 = w ! 7"
    using assms(7) by (simp add: byte0_def)
  have ts: "pes_timestamps w =
      (Some (if w ! 7 AND 0x40 \<noteq> 0 \<and> wrap33 p - wrap33 d > 60 * 90000
             then wrap33 d else wrap33 p),
       Some (if w ! 7 AND 0x40 \<noteq> 0 then wrap33 d else wrap33 p))"
  proof (cases "w ! 7 AND 0x40 = 0")
    case True
    then show ?thesis
      using assms(10) unfolding pes_timestamps_def Let_def f rt by simp
  next
    case False
    then have "d < 8589934592" "pre' < 16" "14 + 5 \<le> length w"
      "take 5 (drop 14 w) = pts_field pre' d"
      using assms(12) by simp_all
    then have rd: "read_timestamp w 14 = wrap33 d"
      unfolding wrap33_def by (rule read_timestamp_field)
    show ?thesis
      using assms(10) False unfolding pes_timestamps_def Let_def f rt rd by simp
  qed
  have "9 \<le> length w" using assms(7) by simp
  then show ?thesis
    using parsePES_complete [OF assms(5,3,4,6) _ assms(8,9)] pf ts by simp
qed

text \<open>
  Two headers with both flags set and two payload bytes behind them. In the first,
  \<open>p = 2^33 - 1\<close> and \<open>d = 2^33 - 2\<close>: both wrap, to \<open>-1\<close> and \<open>-2\<close>. In the second,
  \<open>p = 5400002\<close> and \<open>d = 1\<close>: the PTS is more than 60 seconds ahead and is replaced.
\<close>

theorem parsePES_pts_roundtrip_witness:
  "((\<exists>r. parsePES (stream_of [[0, 0, 1, 0xE0, 0, 0, 0x80, 0xC0, 10, 0x3F, 255, 255, 255, 255,
                                  0x1F, 255, 255, 255, 253, 9, 9]])
          = Inr (Some r) \<and> pes_pts r = Some (- 1) \<and> pes_dts r = Some (- 2)) \<and>
    pts_formula [0, 0, 1, 0xE0, 0, 0, 0x80, 0xC0, 10, 0x3F, 255, 255, 255, 255,
                 0x1F, 255, 255, 255, 253, 9, 9] = 8589934591) \<and>
   ((\<exists>r. parsePES (stream_of [[0, 0, 1, 0xE0, 0, 0, 0x80, 0xC0, 10, 0x31, 1, 73, 203, 133,
                                  0x11, 0, 1, 0, 3, 9, 9]])
          = Inr (Some r) \<and> pes_pts r = Some 1 \<and> pes_dts r = Some 1) \<and>
    pts_formula [0, 0, 1, 0xE0, 0, 0, 0x80, 0xC0, 10, 0x31, 1, 73, 203, 133,
                 0x11, 0, 1, 0, 3, 9, 9] = 5400002)"
proof -
  let ?w = "[0, 0, 1, 0xE0, 0, 0, 0x80, 0xC0, 10, 0x3F, 255, 255, 255, 255,
             0x1F, 255, 255, 255, 253, 9, 9] :: byte list"
  let ?v = "[0, 0, 1, 0xE0, 0, 0, 0x80, 0xC0, 10, 0x31, 1, 73, 203, 133,
             0x11, 0, 1, 0, 3, 9, 9] :: byte list"
  have "pts_field 3 8589934591 = [0x3F, 255, 255, 255, 255]"
    "pts_field 1 8589934590 = [0x1F, 255, 255, 255, 253]"
    "pts_field 3 5400002 = [0x31, 1, 73, 203, 133]"
    "pts_field 1 1 = [0x11, 0, 1, 0, 3]"
    by (simp_all add: pts_field_def)
  then show ?thesis
    using parsePES_pts_roundtrip [of 8589934591 3 "stream_of [?w]" ?w 8589934590 1]
      parsePES_pts_roundtrip [of 5400002 3 "stream_of [?v]" ?v 1 1]
    by (simp add: stream_of_def start_code_prefix_def pes_length_field_def wrap33_def)
qed

text \<open>
  C3 as stated fails when both flags are set and the DTS is more than 60 seconds behind:
  with \<open>p = 5400002\<close> in bytes 9..13 and DTS 1 in bytes 14..18 the returned \<open>pts\<close> is
  1, not \<open>p\<close>.
\<close>

theorem parsePES_pts_aligned_to_dts:
  "take 5 (drop 9 [0, 0, 1, 0xE0, 0, 0, 0x80, 0xC0, 10, 0x31, 1, 73, 203, 133, 0x11, 0, 1, 0, 3 :: byte])
     = pts_field 3 5400002 \<and>
   parsePES (stream_of [[0, 0, 1, 0xE0, 0, 0, 0x80, 0xC0, 10, 0x31, 1, 73, 203, 133, 0x11, 0, 1, 0, 3]])
     = Inr (Some \<lparr>pes_data = [], pes_pts = Some 1, pes_dts = Some 1, pes_len = 0\<rparr>)"
  by (simp add: pts_field_def parsePES_def stream_of_def pes_timestamps_def read_timestamp_def
      byte0_def Let_def)

text \<open>
  The results of \<open>_parsePES\<close> on an accumulator with a non-zero size and at least one
  slice: null when the first three bytes are not 0x000001; null when the PES length
  field (bytes 4 and 5 present) is non-zero and exceeds \<open>size - 6\<close>; and, when \<open>size\<close>
  is the number of accumulated bytes and these hold the whole header (\<open>9 + b[8]\<close>
  bytes), a record whose data is the payload after the header and whose \<open>len\<close> is the
  length field minus \<open>b[8] + 3\<close> (0 for an unbounded PES).
\<close>

lemma parsePES_outcomes:
  assumes "s_size st \<noteq> 0" and "s_data st \<noteq> []" and "w = concat (s_data st)"
  shows "(\<not> start_code_prefix w \<longrightarrow> parsePES st = Inr None) \<and>
    (start_code_prefix w \<and> 6 \<le> length w \<and> pes_length_field w \<noteq> 0 \<and>
       pes_length_field w > s_size st - 6 \<longrightarrow> parsePES st = Inr None) \<and>
    (start_code_prefix w \<and> s_size st = int (length w) \<and> 9 \<le> length w \<and>
       (pes_length_field w = 0 \<or> pes_length_field w \<le> s_size st - 6) \<and>
       9 + unat (w ! 8) \<le> length w \<longrightarrow>
       (\<exists>r. parsePES st = Inr (Some r) \<and> pes_data r = drop (9 + unat (w ! 8)) w \<and>
            pes_len r = (if pes_length_field w \<noteq> 0
                         then pes_length_field w - (uint (w ! 8) + 3) else 0)))"
proof (intro conjI impI)
  assume "\<not> start_code_prefix w"
  then show "parsePES st = Inr None"
    using assms by (simp add: parsePES_bad_prefix)
next
  assume "start_code_prefix w \<and> 6 \<le> length w \<and> pes_length_field w \<noteq> 0 \<and>
       pes_length_field w > s_size st - 6"
  then show "parsePES st = Inr None"
    using assms by (simp add: parsePES_truncated)
next
  assume a: "start_code_prefix w \<and> s_size st = int (length w) \<and> 9 \<le> length w \<and>
       (pes_length_field w = 0 \<or> pes_length_field w \<le> s_size st - 6) \<and>
       9 + unat (w ! 8) \<le> length w"
  then have "parsePES st = Inr (Some \<lparr>pes_data = drop (9 + unat (w ! 8)) w,
           pes_pts = fst (pes_timestamps w), pes_dts = snd (pes_timestamps w),
           pes_len = (if pes_length_field w \<noteq> 0
                      then pes_length_field w - (uint (w ! 8) + 3) else 0)\<rparr>)"
    using assms(2,3) by (intro parsePES_complete) auto
  then show "\<exists>r. parsePES st = Inr (Some r) \<and> pes_data r = drop (9 + unat (w ! 8)) w \<and>
            pes_len r = (if pes_length_field w \<noteq> 0
                         then pes_length_field w - (uint (w ! 8) + 3) else 0)"
    by simp
qed


section \<open>Properties: HEVC SPS bit reader: \<open>HEVCSpsParser\<close>\<close>

lemma subarray_one:
  assumes "0 \<le> b" and "b < int (length a)"
  shows "subarray a b (b + 1) = [a ! nat b]"
proof -
  have "nat b < length a" using assms by linarith
  then have "take 1 (drop (nat b) a) = [a ! nat b]"
    by (simp add: take_Suc hd_drop_conv_nth)
  moreover have "min (b + 1) (int (length a)) - min b (int (length a)) = 1"
    using assms by linarith
  ultimately show ?thesis
    using assms by (simp add: subarray_def Let_def)
qed

lemma subarray_none: "subarray a b b = []"
  by (simp add: subarray_def Let_def)

lemma getByte_eq:
  assumes "bytesAvailable p \<le> length (sp_data p)"
  shows "getByte p =
    Inr (if bytesAvailable p = 0 then 0
         else sp_data p ! (length (sp_data p) - bytesAvailable p),
         p\<lparr>bitsAvailable := min 1 (bytesAvailable p) * 8,
           bytesAvailable := bytesAvailable p - min 1 (bytesAvailable p)\<rparr>)"
proof (cases "bytesAvailable p = 0")
  case True
  then show ?thesis by (simp add: getByte_def subarray_none)
next
  case False
  let ?pos = "int (length (sp_data p)) - int (bytesAvailable p)"
  have m: "min 1 (bytesAvailable p) = 1" using False by simp
  have "0 \<le> ?pos" "?pos < int (length (sp_data p))" using assms False by linarith+
  then have "subarray (sp_data p) ?pos (?pos + 1) = [sp_data p ! nat ?pos]"
    by (rule subarray_one)
  moreover have "nat ?pos = length (sp_data p) - bytesAvailable p"
    by linarith
  ultimately show ?thesis
    using False m by (simp add: getByte_def Let_def)
qed

lemma getByte_zext:
  assumes "zext k p p'"
  shows "\<exists>b q q'. getByte p = Inr (b, q) \<and> getByte p' = Inr (b, q') \<and> zext k q q'"
proof -
  have le: "bytesAvailable p \<le> length (sp_data p)"
    and d: "sp_data p' = sp_data p @ replicate k 0"
    using assms by (simp_all add: zext_def)
  have le': "bytesAvailable p' \<le> length (sp_data p')"
    using assms by (auto simp: zext_def split: if_splits)
  show ?thesis
  proof (cases "bytesAvailable p > 0")
    case True
    then have a: "bytesAvailable p' = bytesAvailable p + k"
      using assms by (simp add: zext_def)
    have "length (sp_data p') - bytesAvailable p' = length (sp_data p) - bytesAvailable p"
      using a d le by simp
    moreover have "length (sp_data p) - bytesAvailable p < length (sp_data p)"
      using True le by linarith
    ultimately have "sp_data p' ! (length (sp_data p') - bytesAvailable p')
        = sp_data p ! (length (sp_data p) - bytesAvailable p)"
      using d by (simp add: nth_append)
    then show ?thesis
      using True a assms le
      by (auto simp: getByte_eq [OF le] getByte_eq [OF le'] zext_def)
  next
    case False
    then have z: "bytesAvailable p = 0" by simp
    then have a: "bytesAvailable p' \<le> k"
      using assms by (simp add: zext_def)
    have "sp_data p' ! (length (sp_data p') - bytesAvailable p') = 0"
      if "bytesAvailable p' > 0"
    proof -
      have "\<not> length (sp_data p') - bytesAvailable p' < length (sp_data p)"
        and "length (sp_data p') - bytesAvailable p' - length (sp_data p) < k"
        using d a that by simp_all
      then show ?thesis using d by (simp add: nth_append)
    qed
    then show ?thesis
      using z a assms
      by (auto simp: getByte_eq [OF le] getByte_eq [OF le'] zext_def)
  qed
qed

lemma read_zext:
  "zext k p p' \<Longrightarrow> \<exists>q q'. read p n = Inr q \<and> read p' n = Inr q' \<and> zext k q q'"
proof (induction "n - bitsInCache p" arbitrary: p p' rule: less_induct)
  case less
  have bc: "bitsInCache p' = bitsInCache p"
    using less.prems by (simp add: zext_def)
  show ?case
  proof (cases "bitsInCache p < n")
    case False
    then have "read p n = Inr p" "read p' n = Inr p'"
      using bc by (simp_all add: read.simps [of p] read.simps [of p'])
    then show ?thesis using less.prems by simp
  next
    case True
    obtain b q q' where g: "getByte p = Inr (b, q)" "getByte p' = Inr (b, q')" "zext k q q'"
      using getByte_zext [OF less.prems] by blast
    have bq: "bitsInCache q = bitsInCache p"
      using g(1) by (rule getByte_bitsInCache)
    have same: "firstByte q' = firstByte q" "cache q' = cache q" "bitsInCache q' = bitsInCache q"
      using g(3) by (simp_all add: zext_def)
    show ?thesis
    proof (cases "b = 0x03 \<and> firstByte q = 0x00 \<and> cache q AND 0xff = 0")
      case epb: True
      obtain b2 r r' where h: "getByte q = Inr (b2, r)" "getByte q' = Inr (b2, r')" "zext k r r'"
        using getByte_zext [OF g(3)] by blast
      let ?s = "r\<lparr>cache := push_bit 8 (cache r) OR ucast (firstByte r), firstByte := b2,
                   bitsInCache := bitsInCache r + 8\<rparr>"
      let ?s' = "r'\<lparr>cache := push_bit 8 (cache r') OR ucast (firstByte r'), firstByte := b2,
                   bitsInCache := bitsInCache r' + 8\<rparr>"
      have br: "bitsInCache r = bitsInCache q"
        using h(1) by (rule getByte_bitsInCache)
      have z: "zext k ?s ?s'" using h(3) by (simp add: zext_def)
      have "n - bitsInCache ?s < n - bitsInCache p"
        using True br bq by simp
      then obtain t t' where "read ?s n = Inr t" "read ?s' n = Inr t'" "zext k t t'"
        using less.hyps [OF _ z] by blast
      moreover have "read p n = read ?s n"
        using True g(1) h(1) epb by (subst read.simps) simp
      moreover have "read p' n = read ?s' n"
        using True bc g(2) h(2) epb same by (subst read.simps) simp
      ultimately show ?thesis by simp
    next
      case noepb: False
      let ?s = "q\<lparr>cache := push_bit 8 (cache q) OR ucast (firstByte q), firstByte := b,
                   bitsInCache := bitsInCache q + 8\<rparr>"
      let ?s' = "q'\<lparr>cache := push_bit 8 (cache q') OR ucast (firstByte q'), firstByte := b,
                   bitsInCache := bitsInCache q' + 8\<rparr>"
      have z: "zext k ?s ?s'" using g(3) by (simp add: zext_def)
      have "n - bitsInCache ?s < n - bitsInCache p"
        using True bq by simp
      then obtain t t' where "read ?s n = Inr t" "read ?s' n = Inr t'" "zext k t t'"
        using less.hyps [OF _ z] by blast
      moreover have "read p n = read ?s n"
        using True g(1) noepb by (subst read.simps) auto
      moreover have "read p' n = read ?s' n"
        using True bc g(2) noepb same by (subst read.simps) auto
      ultimately show ?thesis by simp
    qed
  qed
qed

lemma skipBits_zext:
  assumes "zext k p p'"
  shows "\<exists>q q'. skipBits p n = Inr q \<and> skipBits p' n = Inr q' \<and> zext k q q'"
proof -
  obtain q q' where "read p n = Inr q" "read p' n = Inr q'" "zext k q q'"
    using read_zext [OF assms] by blast
  then show ?thesis by (simp add: skipBits_def zext_def)
qed

lemma readBits_zext:
  assumes "zext k p p'"
  shows "\<exists>v q q'. readBits p n = Inr (v, q) \<and> readBits p' n = Inr (v, q') \<and> zext k q q'"
proof -
  obtain q q' where "read p n = Inr q" "read p' n = Inr q'" "zext k q q'"
    using read_zext [OF assms] by blast
  then show ?thesis by (simp add: readBits_def zext_def Let_def)
qed

lemma run_ops_zext:
  "zext k p p' \<Longrightarrow>
   \<exists>vs q q'. run_ops p ops = Inr (vs, q) \<and> run_ops p' ops = Inr (vs, q') \<and> zext k q q'"
proof (induction ops arbitrary: p p')
  case Nil
  then show ?case by simp
next
  case (Cons op ops)
  show ?case
  proof (cases op)
    case (ReadBits n)
    obtain v q q' where r: "readBits p n = Inr (v, q)" "readBits p' n = Inr (v, q')" "zext k q q'"
      using readBits_zext [OF Cons.prems] by blast
    obtain vs t t' where "run_ops q ops = Inr (vs, t)" "run_ops q' ops = Inr (vs, t')" "zext k t t'"
      using Cons.IH [OF r(3)] by blast
    then show ?thesis using ReadBits r by simp
  next
    case (SkipBits n)
    obtain q q' where r: "skipBits p n = Inr q" "skipBits p' n = Inr q'" "zext k q q'"
      using skipBits_zext [OF Cons.prems] by blast
    obtain vs t t' where "run_ops q ops = Inr (vs, t)" "run_ops q' ops = Inr (vs, t')" "zext k t t'"
      using Cons.IH [OF r(3)] by blast
    then show ?thesis using SkipBits r by simp
  qed
qed

lemma zext_new: "zext k (HEVCSpsParser d) (HEVCSpsParser (d @ replicate k 0))"
  by (simp add: zext_def HEVCSpsParser_def)

text \<open>
  C10. For every reader state with \<open>bytesAvailable = 0\<close>, \<open>getByte\<close> returns 0 and
  consumes nothing. For every input and every sequence of \<open>readBits\<close> and \<open>skipBits\<close>
  calls on a new parser, no call throws, and the values read are those read from the
  input followed by any number of zero bytes.
\<close>

theorem HEVCSpsParser_total_past_end:
  "(bytesAvailable p = 0 \<longrightarrow>
      getByte p = Inr (0, p\<lparr>bitsAvailable := 0, bytesAvailable := 0\<rparr>)) \<and>
   (\<exists>vs q q'. run_ops (HEVCSpsParser d) ops = Inr (vs, q) \<and>
      run_ops (HEVCSpsParser (d @ replicate k 0)) ops = Inr (vs, q'))"
proof
  show "bytesAvailable p = 0 \<longrightarrow>
      getByte p = Inr (0, p\<lparr>bitsAvailable := 0, bytesAvailable := 0\<rparr>)"
    by (simp add: getByte_eq)
  show "\<exists>vs q q'. run_ops (HEVCSpsParser d) ops = Inr (vs, q) \<and>
      run_ops (HEVCSpsParser (d @ replicate k 0)) ops = Inr (vs, q')"
    using run_ops_zext [OF zext_new] by blast
qed

text \<open>
  The statement at a reader that is already past its (empty) input, and at a two-byte
  input read through four calls that run three bytes past its end.
\<close>

theorem HEVCSpsParser_total_past_end_witness:
  "bytesAvailable (HEVCSpsParser []) = 0 \<and>
   getByte (HEVCSpsParser []) = Inr (0, HEVCSpsParser []) \<and>
   (\<exists>vs q q'.
      run_ops (HEVCSpsParser [0x42, 0x01]) [ReadBits 8, ReadBits 8, SkipBits 4, ReadBits 9]
        = Inr (vs, q) \<and>
      run_ops (HEVCSpsParser ([0x42, 0x01] @ replicate 3 0))
        [ReadBits 8, ReadBits 8, SkipBits 4, ReadBits 9] = Inr (vs, q'))"
  using HEVCSpsParser_total_past_end [of "HEVCSpsParser []" "[0x42, 0x01]"
      "[ReadBits 8, ReadBits 8, SkipBits 4, ReadBits 9]" 3]
  by (simp add: HEVCSpsParser_def)

section \<open>Properties: PAT and PMT: \<open>_parsePAT\<close>, \<open>_parsePMT\<close> and the PMT case of \<open>push\<close>\<close>

text \<open>
  The loop never writes \<open>aac\<close>, and it writes \<open>audio\<close> only when \<open>audio\<close> is already
  \<open>-1\<close>: from the initial object both keep their initial values.
\<close>

lemma pmt_entries_audio:
  "r_aac result = - 1 \<Longrightarrow> r_audio result = None \<Longrightarrow>
   r_aac (pmt_entries data offset tableEnd result) = - 1 \<and>
   r_audio (pmt_entries data offset tableEnd result) = None"
proof (induction data offset tableEnd result rule: pmt_entries.induct)
  case (1 data offset tableEnd result)
  show ?case
  proof (cases "int offset < tableEnd")
    case False
    then show ?thesis using "1.prems" by (subst (1 2) pmt_entries.simps) simp
  next
    case True
    show ?thesis
      using True "1.prems"
      by (subst (1 2) pmt_entries.simps) (auto simp: Let_def intro!: "1.IH" [THEN conjunct1] "1.IH" [THEN conjunct2])
  qed
qed

lemma parsePMT_audio:
  "r_aac (parsePMT data offset) = - 1 \<and> r_audio (parsePMT data offset) = None"
  unfolding parsePMT_def Let_def by (rule pmt_entries_audio) simp_all

lemma pmt_section_parsed:
  "parsePMT pmt_section 1 =
     \<lparr>r_aac = - 1, r_videoPID = 256, r_videoStreamType = 36, r_id3 = 258, r_audio = None\<rparr>"
  by (simp add: parsePMT_def pmt_section_def pmt_entries.simps byte0_def shl8_or_def Let_def)

text \<open>
  C4. The claim: the result of \<open>_parsePMT\<close> carries, as the audio PID, the PID of the
  first entry of stream type 0x0F, 0x03 or 0x04, and \<open>push\<close> stores it as the PID of the
  audio track. On the code, for every buffer and offset the \<open>aac\<close> property that \<open>push\<close>
  reads is \<open>-1\<close> and the \<open>audio\<close> property is never created; for the section with an
  AAC entry on PID 0x101 the video and id3 PIDs are found and the audio PID is not; and
  the PMT case of \<open>push\<close> always leaves \<open>-1\<close> in the audio track.
\<close>

theorem parsePMT_never_learns_audio:
  "r_aac (parsePMT data offset) = - 1 \<and> r_audio (parsePMT data offset) = None \<and>
   parsePMT pmt_section 1 =
     \<lparr>r_aac = - 1, r_videoPID = 256, r_videoStreamType = 36, r_id3 = 258, r_audio = None\<rparr> \<and>
   et_id (aacTrack (push_case_pmtId this data offset stt)) = - 1"
  using parsePMT_audio pmt_section_parsed
  by (simp add: push_case_pmtId_def Let_def)

text \<open>
  C8. The claim: track ids are the constants video=0, audio=1, id3=2, text=3 and no
  operation between two resets changes them. On the code, \<open>resetInitSegment\<close> gives the
  audio, id3 and text tracks the id \<open>-1\<close> and the video track no id, whatever the object
  was before; only \<open>createTrack\<close>, which nothing calls, uses the constants; and the PMT
  case of \<open>push\<close> overwrites the id of the id3 track with the PID it parsed (0x102 = 258
  for the example section).
\<close>

theorem track_ids_not_fixed:
  "vt_id (videoTrack (resetInitSegment this a v d)) = None \<and>
   et_id (aacTrack (resetInitSegment this a v d)) = - 1 \<and>
   et_id (id3Track (resetInitSegment this a v d)) = - 1 \<and>
   et_id (txtTrack (resetInitSegment this a v d)) = - 1 \<and>
   map (\<lambda>t. ct_id (createTrack t d)) [''video'', ''audio'', ''id3'', ''text'']
     = [Some 0, Some 1, Some 2, Some 3] \<and>
   et_id (id3Track (push_case_pmtId (resetInitSegment constructed ''aac'' ''hevc'' 10)
     pmt_section 0 True)) = 258"
proof -
  have "pmt_section ! 0 = 0" "0 < length pmt_section"
    by (simp_all add: pmt_section_def)
  then have "et_id (id3Track (push_case_pmtId (resetInitSegment constructed ''aac'' ''hevc'' 10)
     pmt_section 0 True)) = 258"
    using pmt_section_parsed by (simp add: push_case_pmtId_def Let_def)
  then show ?thesis
    by (simp add: resetInitSegment_def createTrack_def RemuxerTrackIdConfig_def)
qed

section \<open>Properties: AAC payloads: the ADTS header search of \<open>_parseAACPES\<close>\<close>

lemma find_header_first:
  "i \<le> k \<Longrightarrow> k + 1 < length data \<Longrightarrow> isHeader data k \<Longrightarrow>
   (\<forall>j. i \<le> j \<and> j < k \<longrightarrow> \<not> isHeader data j) \<Longrightarrow>
   find_header isHeader data i = k"
proof (induction "k - i" arbitrary: i)
  case 0
  then have "i = k" by simp
  then show ?case using 0 by (subst find_header.simps) simp
next
  case (Suc n)
  then have "i < k" "\<not> isHeader data i" "i + 1 < length data" by auto
  moreover have "find_header isHeader data (i + 1) = k"
    using Suc by (intro Suc.hyps) auto
  ultimately show ?case by (subst find_header.simps) simp
qed

lemma find_header_none:
  "i + 1 \<le> length data \<Longrightarrow>
   (\<forall>j. i \<le> j \<and> j + 1 < length data \<longrightarrow> \<not> isHeader data j) \<Longrightarrow>
   find_header isHeader data i = length data - 1"
proof (induction "length data - i" arbitrary: i)
  case 0
  then show ?case by simp
next
  case (Suc n)
  show ?case
  proof (cases "i + 1 < length data")
    case True
    then have "\<not> isHeader data i" using Suc.prems by simp
    moreover have "find_header isHeader data (i + 1) = length data - 1"
      using Suc True by (intro Suc.hyps) auto
    ultimately show ?thesis using True by (subst find_header.simps) simp
  next
    case False
    then have "i = length data - 1" using Suc.prems by simp
    then show ?thesis using False by (subst find_header.simps) simp
  qed
qed

lemma find_header_short: "length data \<le> 1 \<Longrightarrow> find_header isHeader data 0 = 0"
  by (subst find_header.simps) simp

text \<open>
  C9. The claim: a first header at an offset \<open>N > 0\<close> is reported as non-fatal and
  parsing continues from that offset; no header at all is reported as fatal and the
  function returns; a header at offset 0 raises no error. On the code, with \<open>data\<close> the
  payload behind any pending overflow and \<open>this._audioTrack\<close> undefined (the class
  never assigns it, and \<open>resetInitSegment\<close> leaves it as it was):
  \<^item> a first header at \<open>k > 0\<close>, \<open>k < len - 1\<close>, is reported as the claim says, and
    then the function throws: the exception of \<open>ADTS.initTrackConfig\<close> if it throws
    one, the TypeError of \<open>track.samplerate\<close> otherwise. Parsing does not continue;
  \<^item> a payload of at most one byte is never searched: the observer receives no
    fatal report, the function does not return, and it throws in the same way;
  \<^item> a header at offset 0 raises no report, and the function throws in the same way;
  \<^item> only the fatal case is as claimed: two bytes or more and no header below
    \<open>len - 1\<close> give one fatal report and the return, with \<open>this\<close> unchanged.
\<close>

theorem parseAACPES_throws_after_search:
  assumes "audioTrack this = None"
    and "data = (case aacOverFlow this of Some overflow \<Rightarrow> overflow @ pes_data pes
                 | None \<Rightarrow> pes_data pes)"
  shows
    "(\<forall>k evs r. 0 < k \<and> k + 1 < length data \<and> isHeader data k \<and> (\<forall>j<k. \<not> isHeader data j) \<and>
        initTrackConfig None data k (audioCodec this) = (evs, r) \<longrightarrow>
        parseAACPES isHeader initTrackConfig rest this (Some pes) =
          (\<lparr>ev_type = MEDIA_ERROR, ev_details = FRAG_PARSING_ERROR, ev_fatal = False,
            ev_reason = ''AAC PES did not start with ADTS header,offset:'' @ decimal k\<rparr> # evs,
           Inl (case r of Inl e \<Rightarrow> e
                | Inr change \<Rightarrow>
                    TypeError ''Cannot read properties of undefined (reading samplerate)''))) \<and>
     (\<forall>evs r. (length data \<le> 1 \<or> isHeader data 0) \<and>
        initTrackConfig None data 0 (audioCodec this) = (evs, r) \<longrightarrow>
        parseAACPES isHeader initTrackConfig rest this (Some pes) =
          (evs,
           Inl (case r of Inl e \<Rightarrow> e
                | Inr change \<Rightarrow>
                    TypeError ''Cannot read properties of undefined (reading samplerate)''))) \<and>
     (2 \<le> length data \<and> (\<forall>j. j + 1 < length data \<longrightarrow> \<not> isHeader data j) \<longrightarrow>
        parseAACPES isHeader initTrackConfig rest this (Some pes) =
          ([\<lparr>ev_type = MEDIA_ERROR, ev_details = FRAG_PARSING_ERROR, ev_fatal = True,
             ev_reason = ''no ADTS header found in AAC PES''\<rparr>],
           Inr this)) \<and>
     audioTrack (resetInitSegment this a v d) = audioTrack this"
proof (intro conjI allI impI)
  fix k evs r
  assume a: "0 < k \<and> k + 1 < length data \<and> isHeader data k \<and> (\<forall>j<k. \<not> isHeader data j) \<and>
        initTrackConfig None data k (audioCodec this) = (evs, r)"
  then have "find_header isHeader data 0 = k"
    by (intro find_header_first) auto
  then show "parseAACPES isHeader initTrackConfig rest this (Some pes) =
          (\<lparr>ev_type = MEDIA_ERROR, ev_details = FRAG_PARSING_ERROR, ev_fatal = False,
            ev_reason = ''AAC PES did not start with ADTS header,offset:'' @ decimal k\<rparr> # evs,
           Inl (case r of Inl e \<Rightarrow> e
                | Inr change \<Rightarrow>
                    TypeError ''Cannot read properties of undefined (reading samplerate)''))"
    using assms a by (simp add: parseAACPES_def Let_def split: sum.splits)
next
  fix evs r
  assume a: "(length data \<le> 1 \<or> isHeader data 0) \<and>
        initTrackConfig None data 0 (audioCodec this) = (evs, r)"
  have "find_header isHeader data 0 = 0"
  proof (cases "length data \<le> 1")
    case True
    then show ?thesis by (rule find_header_short)
  next
    case False
    then show ?thesis using a by (intro find_header_first) auto
  qed
  then show "parseAACPES isHeader initTrackConfig rest this (Some pes) =
          (evs,
           Inl (case r of Inl e \<Rightarrow> e
                | Inr change \<Rightarrow>
                    TypeError ''Cannot read properties of undefined (reading samplerate)''))"
    using assms a by (simp add: parseAACPES_def Let_def split: sum.splits)
next
  assume a: "2 \<le> length data \<and> (\<forall>j. j + 1 < length data \<longrightarrow> \<not> isHeader data j)"
  then have "find_header isHeader data 0 = length data - 1"
    by (intro find_header_none) auto
  moreover have "length data - 1 \<noteq> 0" "\<not> length data - 1 + 1 < length data"
    using a by simp_all
  ultimately have "\<exists>k. find_header isHeader data 0 = k \<and> k \<noteq> 0 \<and> \<not> k + 1 < length data"
    by blast
  then obtain k where "find_header isHeader data 0 = k" "k \<noteq> 0" "\<not> k + 1 < length data"
    by blast
  then show "parseAACPES isHeader initTrackConfig rest this (Some pes) =
          ([\<lparr>ev_type = MEDIA_ERROR, ev_details = FRAG_PARSING_ERROR, ev_fatal = True,
             ev_reason = ''no ADTS header found in AAC PES''\<rparr>],
           Inr this)"
    using assms(2) [symmetric] by (simp add: parseAACPES_def Let_def)
next
  show "audioTrack (resetInitSegment this a v d) = audioTrack this"
    by (simp add: resetInitSegment_def)
qed

text \<open>
  On a reset object, with an \<open>ADTS.initTrackConfig\<close> that triggers nothing and returns:
  a header at offset 2 (reported, then the TypeError), a payload of one byte that is no
  header (no report, the TypeError), and three bytes without a header (the fatal report
  and the return).
\<close>

theorem parseAACPES_throws_after_search_witness:
  "(let this0 = resetInitSegment constructed ''mp4a.40.2'' ''hvc1'' 10;
        quiet = (\<lambda>track data offset codec. ([], Inr (\<lambda>t. t)));
        rest = (\<lambda>this pes data offset. ([], Inr this))
    in parseAACPES isHeader_syncword quiet rest this0 (Some (pes_of [0x12, 0x34, 0xFF, 0xF1, 0x50]))
         = ([\<lparr>ev_type = MEDIA_ERROR, ev_details = FRAG_PARSING_ERROR, ev_fatal = False,
              ev_reason = ''AAC PES did not start with ADTS header,offset:2''\<rparr>],
            Inl (TypeError ''Cannot read properties of undefined (reading samplerate)'')) \<and>
       \<not> isHeader_syncword [0x12] 0 \<and>
       parseAACPES isHeader_syncword quiet rest this0 (Some (pes_of [0x12]))
         = ([], Inl (TypeError ''Cannot read properties of undefined (reading samplerate)'')) \<and>
       parseAACPES isHeader_syncword quiet rest this0 (Some (pes_of [0x12, 0x34, 0xFF]))
         = ([\<lparr>ev_type = MEDIA_ERROR, ev_details = FRAG_PARSING_ERROR, ev_fatal = True,
              ev_reason = ''no ADTS header found in AAC PES''\<rparr>],
            Inr this0))"
proof -
  let ?dm = "resetInitSegment constructed ''mp4a.40.2'' ''hvc1'' 10"
  let ?quiet = "(\<lambda>track data offset codec. ([], Inr (\<lambda>t. t))) ::
    audio_sample es_track option \<Rightarrow> byte list \<Rightarrow> nat \<Rightarrow> string \<Rightarrow>
      error_event list \<times> (js_error + (audio_sample es_track \<Rightarrow> audio_sample es_track))"
  let ?rest = "(\<lambda>this pes data offset. ([], Inr this)) ::
    tsdemuxer \<Rightarrow> pes \<Rightarrow> byte list \<Rightarrow> nat \<Rightarrow> error_event list \<times> (js_error + tsdemuxer)"
  let ?a = "[0x12, 0x34, 0xFF, 0xF1, 0x50] :: byte list"
  let ?b = "[0x12, 0x34, 0xFF] :: byte list"
  let ?c = "[0x12] :: byte list"
  have t: "audioTrack ?dm = None"
    by (simp add: resetInitSegment_def constructed_def)
  have o: "aacOverFlow ?dm = None"
    by (simp add: resetInitSegment_def)
  have pa: "?a = (case aacOverFlow ?dm of Some overflow \<Rightarrow> overflow @ pes_data (pes_of ?a)
                  | None \<Rightarrow> pes_data (pes_of ?a))"
    and pb: "?b = (case aacOverFlow ?dm of Some overflow \<Rightarrow> overflow @ pes_data (pes_of ?b)
                  | None \<Rightarrow> pes_data (pes_of ?b))"
    and pc: "?c = (case aacOverFlow ?dm of Some overflow \<Rightarrow> overflow @ pes_data (pes_of ?c)
                  | None \<Rightarrow> pes_data (pes_of ?c))"
    unfolding o by (simp_all add: pes_of_def)
  note ta = parseAACPES_throws_after_search [where isHeader = isHeader_syncword
      and initTrackConfig = ?quiet and rest = ?rest, OF t pa]
  note tb = parseAACPES_throws_after_search [where isHeader = isHeader_syncword
      and initTrackConfig = ?quiet and rest = ?rest, OF t pb]
  note tc = parseAACPES_throws_after_search [where isHeader = isHeader_syncword
      and initTrackConfig = ?quiet and rest = ?rest, OF t pc]
  have d2: "decimal 2 = ''2''" by (subst decimal.simps) simp
  have "\<not> isHeader_syncword ?a 0" "\<not> isHeader_syncword ?a (Suc 0)"
    by (simp_all add: isHeader_syncword_def)
  then have "\<forall>j<2. \<not> isHeader_syncword ?a j"
    by (auto dest: less_2_cases)
  moreover have "isHeader_syncword ?a 2"
    by (simp add: isHeader_syncword_def)
  ultimately have 1: "parseAACPES isHeader_syncword ?quiet ?rest ?dm (Some (pes_of ?a))
     = ([\<lparr>ev_type = MEDIA_ERROR, ev_details = FRAG_PARSING_ERROR, ev_fatal = False,
          ev_reason = ''AAC PES did not start with ADTS header,offset:2''\<rparr>],
        Inl (TypeError ''Cannot read properties of undefined (reading samplerate)''))"
    using ta [THEN conjunct1, rule_format, of 2 "[]" "Inr (\<lambda>t. t)"] d2 by simp
  have n: "\<not> isHeader_syncword ?c 0"
    by (simp add: isHeader_syncword_def)
  have 2: "parseAACPES isHeader_syncword ?quiet ?rest ?dm (Some (pes_of ?c))
     = ([], Inl (TypeError ''Cannot read properties of undefined (reading samplerate)''))"
    using tc [THEN conjunct2, THEN conjunct1, rule_format, of "[]" "Inr (\<lambda>t. t)"] by simp
  have "\<not> isHeader_syncword ?b 0" "\<not> isHeader_syncword ?b (Suc 0)"
    by (simp_all add: isHeader_syncword_def)
  then have "\<forall>j<2. \<not> isHeader_syncword ?b j"
    by (auto dest: less_2_cases)
  then have "\<forall>j. j + 1 < length ?b \<longrightarrow> \<not> isHeader_syncword ?b j"
    by simp
  then have 3: "parseAACPES isHeader_syncword ?quiet ?rest ?dm (Some (pes_of ?b))
     = ([\<lparr>ev_type = MEDIA_ERROR, ev_details = FRAG_PARSING_ERROR, ev_fatal = True,
          ev_reason = ''no ADTS header found in AAC PES''\<rparr>],
        Inr ?dm)"
    using tb [THEN conjunct2, THEN conjunct2, THEN conjunct1] by simp
  show ?thesis
    unfolding Let_def using 1 2 3 n by simp
qed

section \<open>Properties: NAL unit scanners: \<open>_parseHEVCNALu\<close> and \<open>_parseAVCNALu\<close>\<close>

text \<open>
  With \<open>state\<close> undefined every byte takes the \<open>default\<close> branch: the loop changes
  nothing.
\<close>

lemma hevc_scan_loop_undefined:
  "sc_state s = None \<Longrightarrow> hevc_scan_loop array i s = Inr s"
proof (induction "length array - i" arbitrary: i)
  case 0
  then show ?case by (subst hevc_scan_loop.simps) simp
next
  case (Suc n)
  then have "hevc_scan_loop array (i + 1) s = Inr s"
    by (intro Suc.hyps) auto
  then show ?case
    using Suc.prems by (subst hevc_scan_loop.simps) (simp add: Let_def)
qed

lemma parseHEVCNALu_undefined:
  "avcNaluState this = None \<Longrightarrow> parseHEVCNALu this array = Inr ([], this)"
  by (simp add: parseHEVCNALu_def hevc_scan_loop_undefined)

text \<open>
  C2. The claim: pushing a stream in two parts gives the samples of pushing it whole,
  and a NAL unit whose start code straddles the two calls is reported once, intact, by
  the second call. On the code, \<open>this.avcNaluState\<close> is assigned nowhere but at the end
  of a scan that found a unit, and \<open>resetInitSegment\<close> leaves it (and \<open>_avcTrack\<close>) as
  they were. With \<open>avcNaluState\<close> undefined the HEVC scanner reports no unit for any
  input and leaves \<open>this\<close> unchanged; with \<open>_avcTrack\<close> undefined the AVC scanner
  throws. On a reset object the two payloads of the example, and their concatenation,
  give no unit at all: the IDR unit behind the straddling start code is never reported.
\<close>

theorem nal_scanners_report_nothing:
  "parseHEVCNALu (this\<lparr>avcNaluState := None\<rparr>) array = Inr ([], this\<lparr>avcNaluState := None\<rparr>) \<and>
   avcNaluState (resetInitSegment this a v d) = avcNaluState this \<and>
   parseAVCNALu (this\<lparr>avcTrack := None\<rparr>) array
     = Inl (TypeError ''Cannot read properties of undefined (reading naluState)'') \<and>
   avcTrack (resetInitSegment this a v d) = avcTrack this \<and>
   (let this0 = resetInitSegment constructed ''aac'' ''hevc'' 10
    in parseHEVCNALu this0 pes_payload_1 = Inr ([], this0) \<and>
       parseHEVCNALu this0 pes_payload_2 = Inr ([], this0) \<and>
       parseHEVCNALu this0 (pes_payload_1 @ pes_payload_2) = Inr ([], this0))"
proof -
  have "avcNaluState (resetInitSegment constructed ''aac'' ''hevc'' 10) = None"
    by (simp add: resetInitSegment_def constructed_def)
  then show ?thesis
    by (simp add: parseHEVCNALu_undefined parseAVCNALu_def resetInitSegment_def Let_def)
qed

section \<open>Properties: From \<open>_parsePES\<close> to the codec parsers: the hand-over in \<open>push\<close>\<close>



section \<open>Properties: Sync search and the entry of \<open>push\<close>\<close>

lemma probe_four_null_packets: "probe four_null_packets"
proof -
  have l: "length four_null_packets = 752"
    by (simp add: four_null_packets_def null_packet_def)
  have n: "four_null_packets ! 0 = 0x47" "four_null_packets ! 188 = 0x47"
    "four_null_packets ! 376 = 0x47"
    by (simp_all add: four_null_packets_def null_packet_def nth_append)
  have "syncOffset four_null_packets = 0"
    unfolding syncOffset_def using l n by (subst syncOffset_scan.simps) simp
  then show ?thesis by (simp add: probe_def)
qed

lemma contiguous_unbound: "''contiguous'' \<notin> set (push_bindings @ module_bindings)"
  by (simp add: push_bindings_def module_bindings_def)

text \<open>
  C1. The claim: for every buffer on which \<open>probe\<close> returns true, \<open>push\<close> on a freshly
  reset demuxer never throws. On the code, the four null packets pass \<open>probe\<close>, and on a
  host whose global object has no property \<open>contiguous\<close> the call of \<open>push\<close> throws a
  ReferenceError at its first statement, for this and every other buffer, every state of
  the demuxer and whatever the rest of \<open>push\<close> does.
\<close>

theorem push_throws_at_entry:
  "probe four_null_packets \<and>
   push (\<lambda>name. None) rest (resetInitSegment constructed ''aac'' ''hevc'' 10) four_null_packets
     = Inl (ReferenceError ''contiguous is not defined'') \<and>
   push (\<lambda>name. None) rest this data = Inl (ReferenceError ''contiguous is not defined'')"
  using probe_four_null_packets contiguous_unbound
  by (simp add: push_def read_identifier_def)

end
